theory Spec2Isabelle
  imports Complex_Main
begin

section \<open>Template variables (src/utils/emailHelpers.ts)\<close>

text \<open>
  Strings are lists of 8-bit characters. A recipient record is the TypeScript interface
  \<^verbatim>\<open>{ email: string; [key: string]: any }\<close>: the \<open>email\<close> field and a dictionary of the
  remaining properties. A property value is \<open>null\<close>, a string, or any other JavaScript
  value, which the code only ever reads through \<open>String(value)\<close> and which is therefore
  kept as that string form. A record is a plain object (JSON of the request body), so a
  key that is not among its own properties is looked up in \<open>Object.prototype\<close>; a key
  found in neither is \<open>undefined\<close>.
\<close>

datatype js_value = JNull | JStr string | JOther string

record EmailRecord =
  email :: string
  others :: "string \<rightharpoonup> js_value"

text \<open>
  The members of \<open>Object.prototype\<close>, each by the string \<open>String(value)\<close> gives for it:
  the constructor and the native methods print as native functions, and \<open>__proto__\<close>
  reads \<open>Object.prototype\<close> itself.
\<close>

definition native_methods :: "string list" where
  "native_methods =
     [''hasOwnProperty'', ''isPrototypeOf'', ''propertyIsEnumerable'', ''toLocaleString'',
      ''toString'', ''valueOf'', ''__defineGetter__'', ''__defineSetter__'',
      ''__lookupGetter__'', ''__lookupSetter__'']"

definition inherited :: "string \<Rightarrow> js_value option" where
  "inherited varName =
     (if varName = ''constructor'' then Some (JOther ''function Object() { [native code] }'')
      else if varName = ''__proto__'' then Some (JOther ''[object Object]'')
      else if varName \<in> set native_methods
        then Some (JOther (''function '' @ varName @ ''() { [native code] }''))
      else None)"

text \<open>\<open>data[varName]\<close>: an own property first, then the prototype.\<close>

definition get_prop :: "EmailRecord \<Rightarrow> string \<Rightarrow> js_value option" where
  "get_prop data varName =
     (if varName = ''email'' then Some (JStr (email data))
      else (case others data varName of
              Some v \<Rightarrow> Some v
            | None \<Rightarrow> inherited varName))"

text \<open>\<open>String(value)\<close>\<close>

fun js_String :: "js_value \<Rightarrow> string" where
  "js_String JNull = ''null''"
| "js_String (JStr s) = s"
| "js_String (JOther s) = s"

text \<open>
  \<open>s.trim()\<close> removes white space and line terminators at both ends; among the 8-bit
  characters these are TAB, LF, VT, FF, CR, SPACE and NBSP.
\<close>

definition is_space :: "char \<Rightarrow> bool" where
  "is_space c = (of_char c \<in> {9, 10, 11, 12, 13, 32, 160 :: nat})"

definition trim :: "string \<Rightarrow> string" where
  "trim s = rev (dropWhile is_space (rev (dropWhile is_space s)))"

text \<open>\<open>variable.split('|')\<close>: cut at every bar; the result is never empty.\<close>

fun split_bar :: "string \<Rightarrow> string list" where
  "split_bar [] = [[]]"
| "split_bar (c # cs) =
     (if c = CHR ''|'' then [] # split_bar cs
      else (case split_bar cs of
              [] \<Rightarrow> [[c]]
            | p # ps \<Rightarrow> (c # p) # ps))"

text \<open>
  \<open>fallback.replace(/^["']|["']$/g, '')\<close>: one quote character is dropped at the start
  and one at the end of what is left.
\<close>

definition is_quote :: "char \<Rightarrow> bool" where
  "is_quote c = (c = CHR 0x22 \<or> c = CHR 0x27)"

definition strip_quotes :: "string \<Rightarrow> string" where
  "strip_quotes s =
     (let s1 = (case s of [] \<Rightarrow> [] | c # cs \<Rightarrow> if is_quote c then cs else s)
      in if s1 \<noteq> [] \<and> is_quote (last s1) then butlast s1 else s1)"

text \<open>
  The callback given to \<open>template.replace\<close>: \<open>match\<close> is the whole token and
  \<open>variable\<close> the text between the braces.
\<close>

definition replacer :: "EmailRecord \<Rightarrow> string \<Rightarrow> string \<Rightarrow> string" where
  "replacer data match variable =
     (case map trim (split_bar variable) of
        [] \<Rightarrow> match
      | varName # rest \<Rightarrow>
          (let fallback = (case rest of [] \<Rightarrow> None | f # _ \<Rightarrow> Some f);
               value = get_prop data varName
           in if value = None \<or> value = Some JNull \<or> value = Some (JStr [])
              then (case fallback of
                      None \<Rightarrow> match
                    | Some f \<Rightarrow> if f \<noteq> [] then strip_quotes f else match)
              else (case value of None \<Rightarrow> match | Some v \<Rightarrow> js_String v)))"

text \<open>
  The regular expression \<open>/\{\{([^}]+)\}\}/\<close> tried at the start of a string: two opening
  braces, the longest non-empty run of characters other than \<open>}\<close>, two closing braces.
  A shorter run cannot match, because the character after it is not \<open>}\<close>. The result is
  the captured group and the text after the match.
\<close>

definition not_close :: "char \<Rightarrow> bool" where
  "not_close c = (c \<noteq> CHR ''}'')"

definition match_token :: "string \<Rightarrow> (string \<times> string) option" where
  "match_token s =
     (case s of
        c1 # c2 # r \<Rightarrow>
          if c1 = CHR ''{'' \<and> c2 = CHR ''{'' then
            (let variable = takeWhile not_close r
             in (case dropWhile not_close r of
                   d1 # d2 # after \<Rightarrow>
                     if variable \<noteq> [] \<and> d2 = CHR ''}'' then Some (variable, after) else None
                 | _ \<Rightarrow> None))
          else None
      | _ \<Rightarrow> None)"

lemma match_token_shorter:
  "match_token s = Some (variable, after) \<Longrightarrow> length after < length s"
proof -
  assume m: "match_token s = Some (variable, after)"
  then obtain c1 c2 r d1 d2 where s: "s = c1 # c2 # r"
    and d: "dropWhile not_close r = d1 # d2 # after"
    by (auto simp: match_token_def Let_def split: list.splits if_splits)
  have "length (dropWhile not_close r) \<le> length r"
    by (rule length_dropWhile_le)
  with s d show ?thesis by simp
qed

text \<open>
  \<open>template.replace(regex, callback)\<close> with the global flag: scan from the left; where the
  expression matches, emit the callback's result and go on after the match, otherwise
  copy one character.
\<close>

function replace_tokens :: "EmailRecord \<Rightarrow> string \<Rightarrow> string" where
  "replace_tokens data [] = []"
| "replace_tokens data (c # cs) =
     (case match_token (c # cs) of
        None \<Rightarrow> c # replace_tokens data cs
      | Some (variable, after) \<Rightarrow>
          replacer data (''{{'' @ variable @ ''}}'') variable @ replace_tokens data after)"
  by pat_completeness auto
termination
  by (relation "measure (\<lambda>(data, s). length s)") (auto dest: match_token_shorter)

text \<open>
  \<open>replaceVariables\<close>: an empty template is returned as it is. (The test \<open>!data\<close> is for a
  \<open>null\<close> record, which the parameter type excludes.)
\<close>

definition replaceVariables :: "string \<Rightarrow> EmailRecord \<Rightarrow> string" where
  "replaceVariables template data =
     (if template = [] then template else replace_tokens data template)"

section \<open>Sending a chunk (sendEmailBatch in the send endpoint)\<close>

datatype result_status = RSuccess | RFailed

record EmailResult =
  r_email :: string
  r_status :: result_status
  messageId :: "string option"
  error :: "string option"

text \<open>An element of the \<open>emails\<close> array, and the payload built from it for the provider.\<close>

record message =
  m_to :: string
  m_subject :: string
  m_html :: string
  m_text :: string

record payload =
  p_from :: string
  p_to :: "string list"
  p_subject :: string
  p_html :: string
  p_text :: string

text \<open>
  What \<open>resend.batch.send\<close> can give back. An element of a returned list is an object whose
  \<open>id\<close> may be missing; \<open>response.data\<close> is an array, an object whose \<open>data\<close> is an array, or
  any other object; \<open>response.error\<close> carries an optional message. The call can also throw,
  an \<open>Error\<close> with a message or any other value.
\<close>

datatype item = Item (item_id: "string option")

datatype response_data = FlatList "item list" | NestedList "item list" | SingleObject item

datatype provider_error = ProviderError (err_message: "string option")

record response =
  rsp_data :: "response_data option"
  rsp_error :: "provider_error option"

datatype thrown = JsError string | NotAnError

datatype send_outcome = Returns response | Throws thrown

text \<open>
  The outside world of the dispatcher: the batch store, the provider, which answers the
  \<open>k\<close>-th call (counted from 0) on given payloads, and the trace of provider calls and
  pauses made so far.
\<close>

datatype batch_status = Processing | Completed | Failed

record batch =
  results :: "EmailResult list"
  status :: batch_status
  totalSent :: nat
  totalFailed :: nat
  createdAt :: nat

datatype event = Sent "payload list" | Slept nat

record state =
  batchResults :: "string \<rightharpoonup> batch"
  provider :: "nat \<Rightarrow> payload list \<Rightarrow> send_outcome"
  events :: "event list"

fun sends :: "event list \<Rightarrow> payload list list" where
  "sends [] = []"
| "sends (Sent ps # es) = ps # sends es"
| "sends (Slept ms # es) = sends es"

definition resend_batch_send :: "payload list \<Rightarrow> state \<Rightarrow> send_outcome \<times> state" where
  "resend_batch_send payloads s =
     (provider s (length (sends (events s))) payloads,
      s\<lparr>events := events s @ [Sent payloads]\<rparr>)"

definition sleep :: "nat \<Rightarrow> state \<Rightarrow> state" where
  "sleep ms s = s\<lparr>events := events s @ [Slept ms]\<rparr>"

text \<open>A string used as a condition is true when it is present and not empty.\<close>

definition truthy :: "string option \<Rightarrow> bool" where
  "truthy v = (case v of None \<Rightarrow> False | Some x \<Rightarrow> x \<noteq> [])"

definition from_field :: "string option \<Rightarrow> string \<Rightarrow> string" where
  "from_field fromName fromEmail =
     (case fromName of
        None \<Rightarrow> fromEmail
      | Some n \<Rightarrow> if n \<noteq> [] then n @ '' <'' @ fromEmail @ ''>'' else fromEmail)"

definition email_payload :: "string \<Rightarrow> string option \<Rightarrow> message \<Rightarrow> payload" where
  "email_payload fromEmail fromName e =
     \<lparr>p_from = from_field fromName fromEmail, p_to = [m_to e], p_subject = m_subject e,
      p_html = m_html e, p_text = m_text e\<rparr>"

definition failed_result :: "string \<Rightarrow> string \<Rightarrow> EmailResult" where
  "failed_result addr msg =
     \<lparr>r_email = addr, r_status = RFailed, messageId = None, error = Some msg\<rparr>"

text \<open>The body of both \<open>forEach\<close> callbacks and of the single-object branch.\<close>

definition item_result :: "string \<Rightarrow> item \<Rightarrow> EmailResult" where
  "item_result addr result =
     (if truthy (item_id result)
      then \<lparr>r_email = addr, r_status = RSuccess, messageId = item_id result, error = None\<rparr>
      else failed_result addr ''No message ID returned'')"

text \<open>
  Reading \<open>emails[index].to\<close> where \<open>emails[index]\<close> is \<open>undefined\<close> throws a TypeError
  (the wording is V8's).
\<close>

definition undefined_to :: thrown where
  "undefined_to = JsError ''Cannot read properties of undefined (reading 'to')''"

text \<open>
  \<open>list.forEach((result, index) => ... emails[index].to ...)\<close>: the list and \<open>emails\<close> are
  walked together. The results pushed so far are kept when the callback throws, because
  \<open>results\<close> lives outside the \<open>try\<close>.
\<close>

fun forEach_items :: "message list \<Rightarrow> item list \<Rightarrow> EmailResult list \<times> thrown option" where
  "forEach_items emails [] = ([], None)"
| "forEach_items [] (result # later) = ([], Some undefined_to)"
| "forEach_items (e # emails) (result # later) =
     (let (rs, ex) = forEach_items emails later in (item_result (m_to e) result # rs, ex))"

definition error_text :: "provider_error option \<Rightarrow> string" where
  "error_text err =
     (case err of
        None \<Rightarrow> ''Batch send failed''
      | Some e \<Rightarrow>
          (case err_message e of
             None \<Rightarrow> ''Batch send failed''
           | Some m \<Rightarrow> if m \<noteq> [] then m else ''Batch send failed''))"

text \<open>
  The \<open>try\<close> block after the provider call: the results pushed, and the exception if one
  was thrown.
\<close>

definition try_block :: "send_outcome \<Rightarrow> message list \<Rightarrow> EmailResult list \<times> thrown option" where
  "try_block out emails =
     (case out of
        Throws ex \<Rightarrow> ([], Some ex)
      | Returns response \<Rightarrow>
          (if rsp_data response \<noteq> None \<and> rsp_error response = None then
             (case rsp_data response of
                None \<Rightarrow> ([], None)
              | Some (FlatList items) \<Rightarrow> forEach_items emails items
              | Some (NestedList items) \<Rightarrow> forEach_items emails items
              | Some (SingleObject result) \<Rightarrow>
                  (case emails of
                     [] \<Rightarrow> ([], Some undefined_to)
                   | e # _ \<Rightarrow> ([item_result (m_to e) result], None)))
           else (map (\<lambda>e. failed_result (m_to e) (error_text (rsp_error response))) emails,
                 None)))"

definition thrown_message :: "thrown \<Rightarrow> string" where
  "thrown_message ex = (case ex of JsError m \<Rightarrow> m | NotAnError \<Rightarrow> ''Unknown error'')"

definition sendEmailBatch ::
  "message list \<Rightarrow> string \<Rightarrow> string option \<Rightarrow> state \<Rightarrow> EmailResult list \<times> state" where
  "sendEmailBatch emails fromEmail fromName s =
     (let emailPayloads = map (email_payload fromEmail fromName) emails;
          (out, s') = resend_batch_send emailPayloads s;
          (pushed, ex) = try_block out emails
      in (case ex of
            None \<Rightarrow> (pushed, s')
          | Some err \<Rightarrow>
              (pushed @ map (\<lambda>e. failed_result (m_to e) (thrown_message err)) emails, s')))"

section \<open>The chunk loop (processBatchAsync in the send endpoint)\<close>

text \<open>The arguments of \<open>processBatchAsync\<close>.\<close>

record task =
  batchId :: string
  recipients :: "EmailRecord list"
  subject :: string
  htmlContent :: string
  textContent :: "string option"
  fromEmail :: string
  fromName :: "string option"

definition BATCH_SIZE :: nat where
  "BATCH_SIZE = 100"

text \<open>The parameter default \<open>textContent: string = ''\<close>.\<close>

definition text_or_default :: "string option \<Rightarrow> string" where
  "text_or_default t = (case t of None \<Rightarrow> [] | Some x \<Rightarrow> x)"

text \<open>The callback of \<open>chunk.map\<close>.\<close>

definition personalize :: "task \<Rightarrow> EmailRecord \<Rightarrow> message" where
  "personalize t recipient =
     \<lparr>m_to = email recipient,
      m_subject = replaceVariables (subject t) recipient,
      m_html = replaceVariables (htmlContent t) recipient,
      m_text = replaceVariables (text_or_default (textContent t)) recipient\<rparr>"

text \<open>
  One pass through the body of the \<open>for\<close> loop, on the loop variables \<open>i\<close> and
  \<open>allResults\<close> and the outside world, with the increment \<open>i += BATCH_SIZE\<close>.
\<close>

definition chunk_step ::
  "task \<Rightarrow> nat \<times> EmailResult list \<times> state \<Rightarrow> nat \<times> EmailResult list \<times> state" where
  "chunk_step t = (\<lambda>(i, allResults, s).
     (let chunk = take BATCH_SIZE (drop i (recipients t));
          emails = map (personalize t) chunk;
          (chunkResults, s1) = sendEmailBatch emails (fromEmail t) (fromName t) s;
          s2 = (if i + BATCH_SIZE < length (recipients t) then sleep 1000 s1 else s1)
      in (i + BATCH_SIZE, allResults @ chunkResults, s2)))"

lemma fst_chunk_step: "fst (chunk_step t (i, allResults, s)) = i + BATCH_SIZE"
  by (simp add: chunk_step_def Let_def split: prod.splits)

function chunk_loop ::
  "task \<Rightarrow> nat \<times> EmailResult list \<times> state \<Rightarrow> EmailResult list \<times> state" where
  "chunk_loop t (i, allResults, s) =
     (if i < length (recipients t) then chunk_loop t (chunk_step t (i, allResults, s))
      else (allResults, s))"
  by pat_completeness auto
termination
proof (relation "measure (\<lambda>(t, i, allResults, s). length (recipients t) - i)")
  show "wf (measure (\<lambda>(t, i, allResults, s). length (recipients t) - i))"
    by simp
next
  fix t :: task and i :: nat and allResults :: "EmailResult list" and s :: state
  assume less: "i < length (recipients t)"
  obtain i' a' s' where step: "chunk_step t (i, allResults, s) = (i', a', s')"
    by (cases "chunk_step t (i, allResults, s)") auto
  with fst_chunk_step [of t i allResults s] have "i' = i + BATCH_SIZE"
    by simp
  with less step
  show "((t, chunk_step t (i, allResults, s)), (t, i, allResults, s))
          \<in> measure (\<lambda>(t, i, allResults, s). length (recipients t) - i)"
    by (simp add: BATCH_SIZE_def)
qed

declare chunk_loop.simps [simp del]

text \<open>
  The body of the \<open>try\<close> block: leave if the batch is gone, run the loop, count, and write
  the batch once. With arguments of their declared types no statement outside
  \<open>sendEmailBatch\<close>, which catches its own exceptions, can throw.
\<close>

definition processBatchAsync :: "task \<Rightarrow> state \<Rightarrow> state" where
  "processBatchAsync t s =
     (case batchResults s (batchId t) of
        None \<Rightarrow> s
      | Some batch \<Rightarrow>
          (let (allResults, s') = chunk_loop t (0, [], s);
               sent = length (filter (\<lambda>r. r_status r = RSuccess) allResults);
               failed = length (filter (\<lambda>r. r_status r = RFailed) allResults)
           in s'\<lparr>batchResults := (batchResults s')(batchId t \<mapsto>
                  \<lparr>results = allResults, status = Completed, totalSent = sent,
                   totalFailed = failed, createdAt = createdAt batch\<rparr>)\<rparr>))"

text \<open>
  \<open>processBatchAsync\<close> up to its first \<open>await\<close>. A call of an \<open>async\<close> function runs
  in the caller's turn until it awaits: the batch is looked up, the first chunk is
  personalized, \<open>sendEmailBatch\<close> builds the payloads and calls \<open>resend.batch.send\<close>,
  and the function is suspended on that call's answer. Without recipients no \<open>await\<close> is
  reached and the whole body runs.
\<close>

definition processBatchAsync_begin :: "task \<Rightarrow> state \<Rightarrow> state" where
  "processBatchAsync_begin t s =
     (case batchResults s (batchId t) of
        None \<Rightarrow> s
      | Some batch \<Rightarrow>
          if 0 < length (recipients t) then
            (let chunk = take BATCH_SIZE (drop 0 (recipients t));
                 emails = map (personalize t) chunk;
                 emailPayloads = map (email_payload (fromEmail t) (fromName t)) emails
             in snd (resend_batch_send emailPayloads s))
          else processBatchAsync t s)"

text \<open>The \<open>catch\<close> block of \<open>processBatchAsync\<close>.\<close>

definition processBatchAsync_catch :: "string \<Rightarrow> state \<Rightarrow> state" where
  "processBatchAsync_catch bid s =
     (case batchResults s bid of
        None \<Rightarrow> s
      | Some batch \<Rightarrow> s\<lparr>batchResults := (batchResults s)(bid \<mapsto> batch\<lparr>status := Failed\<rparr>)\<rparr>)"

definition getBatchResults :: "string \<Rightarrow> state \<Rightarrow> batch option" where
  "getBatchResults bid s = batchResults s bid"

text \<open>\<open>cleanupOldBatches\<close>, with the current time in milliseconds.\<close>

definition cleanupOldBatches :: "nat \<Rightarrow> state \<Rightarrow> state" where
  "cleanupOldBatches now s =
     s\<lparr>batchResults := (\<lambda>bid.
          case batchResults s bid of
            None \<Rightarrow> None
          | Some batch \<Rightarrow>
              if int now - int (createdAt batch) > 24 * 60 * 60 * 1000 then None
              else Some batch)\<rparr>"

section \<open>The submit endpoint (handler of the send endpoint)\<close>

text \<open>Decimal digits of a number, as a template literal prints it.\<close>

function dec :: "nat \<Rightarrow> string" where
  "dec n = (if n < 10 then [char_of (48 + n)] else dec (n div 10) @ [char_of (48 + n mod 10)])"
  by pat_completeness auto
termination
  by (relation "measure id") auto

declare dec.simps [simp del]

record SendEmailRequest =
  body_recipients :: "EmailRecord list option"
  body_subject :: "string option"
  body_htmlContent :: "string option"
  body_textContent :: "string option"
  body_fromName :: "string option"

record environment =
  FROM_EMAIL :: "string option"
  NEXT_PUBLIC_FROM_EMAIL :: "string option"

record SendResponse =
  res_code :: nat
  res_success :: bool
  res_message :: string
  res_batchId :: "string option"

definition reply :: "nat \<Rightarrow> bool \<Rightarrow> string \<Rightarrow> string option \<Rightarrow> SendResponse" where
  "reply c ok msg bid = \<lparr>res_code = c, res_success = ok, res_message = msg, res_batchId = bid\<rparr>"

text \<open>\<open>batchResults.set(batchId, {...})\<close> in the handler.\<close>

definition create_batch :: "string \<Rightarrow> nat \<Rightarrow> state \<Rightarrow> state" where
  "create_batch bid created s =
     s\<lparr>batchResults := (batchResults s)(bid \<mapsto>
          \<lparr>results = [], status = Processing, totalSent = 0, totalFailed = 0,
           createdAt = created\<rparr>)\<rparr>"

text \<open>
  The handler after authentication. \<open>now\<close> is \<open>Date.now()\<close>, \<open>random\<close> the text
  \<open>Math.random().toString(36).substr(2, 9)\<close> and \<open>created\<close> the time of \<open>new Date()\<close>. The
  result is the response, the state at the moment the response is sent, and the call of
  \<open>processBatchAsync\<close> that is started and not awaited. That call is made before
  \<open>res.status(200).json\<close>, so it has run up to its first \<open>await\<close> when the response is
  sent: the state returned is the one with the batch stored and the provider call for
  the first chunk issued, its answer not yet delivered. The rest of the call runs after
  the handler has returned; as a whole it is \<open>processBatchAsync\<close> on the state with the
  batch stored. The last case stands for the \<open>catch\<close> block of the handler; the tests
  before it leave nothing for it.
\<close>

definition handler ::
  "string \<Rightarrow> SendEmailRequest \<Rightarrow> environment \<Rightarrow> nat \<Rightarrow> string \<Rightarrow> nat \<Rightarrow> state
     \<Rightarrow> SendResponse \<times> state \<times> task option" where
  "handler method body env now random created s =
     (if method \<noteq> ''POST'' then (reply 405 False ''Method not allowed'' None, s, None)
      else
        (let sender = (if truthy (FROM_EMAIL env) then FROM_EMAIL env
                       else NEXT_PUBLIC_FROM_EMAIL env)
         in (case body_recipients body of
               None \<Rightarrow>
                 (reply 400 False ''Recipients array is required and cannot be empty'' None,
                  s, None)
             | Some rs \<Rightarrow>
                 if length rs = 0 then
                   (reply 400 False ''Recipients array is required and cannot be empty'' None,
                    s, None)
                 else if \<not> truthy (body_subject body) \<or> \<not> truthy (body_htmlContent body) then
                   (reply 400 False ''Subject and HTML content are required'' None, s, None)
                 else if \<not> truthy sender then
                   (reply 400 False ''FROM_EMAIL environment variable is required'' None,
                    s, None)
                 else
                   (case (body_subject body, body_htmlContent body, sender) of
                      (Some subj, Some content, Some addr) \<Rightarrow>
                        if length rs > 1000 then
                          (reply 400 False ''Maximum 1000 recipients allowed per batch'' None,
                           s, None)
                        else
                          (let completeFromEmail =
                                 (if CHR ''@'' \<in> set addr then addr else ''noreply@'' @ addr);
                               bid = ''batch_'' @ dec now @ ''_'' @ random;
                               s1 = create_batch bid created s;
                               run = \<lparr>batchId = bid, recipients = rs, subject = subj,
                                      htmlContent = content,
                                      textContent = body_textContent body,
                                      fromEmail = completeFromEmail,
                                      fromName = body_fromName body\<rparr>;
                               s2 = processBatchAsync_begin run s1
                           in (reply 200 True
                                 (''Email batch initiated with '' @ dec (length rs)
                                    @ '' recipients'')
                                 (Some bid),
                               s2,
                               Some run))
                    | _ \<Rightarrow> (reply 500 False ''Internal server error'' None, s, None)))))"

section \<open>The status endpoint\<close>

datatype query_value = QMissing | QString string | QArray "string list"

record StatusResponse =
  st_code :: nat
  st_success :: bool
  st_batchId :: "string option"
  st_status :: "batch_status option"
  st_results :: "EmailResult list option"
  st_totalSent :: "nat option"
  st_totalFailed :: "nat option"
  st_progress :: "int option"
  st_message :: string

definition status_error :: "nat \<Rightarrow> string \<Rightarrow> StatusResponse" where
  "status_error c msg =
     \<lparr>st_code = c, st_success = False, st_batchId = None, st_status = None, st_results = None,
      st_totalSent = None, st_totalFailed = None, st_progress = None, st_message = msg\<rparr>"

fun status_text :: "batch_status \<Rightarrow> string" where
  "status_text Processing = ''processing''"
| "status_text Completed = ''completed''"
| "status_text Failed = ''failed''"

text \<open>
  The status handler that reads the store of the send endpoint through \<open>getBatchResults\<close>.
  \<open>Math.round\<close> rounds half up, as \<open>round\<close> does; the quotient is taken in the reals.
  (Every result has one of the two statuses, so the quotient is 1 whenever it is taken,
  and the floating-point product is exactly 100.)
\<close>

definition status_handler :: "string \<Rightarrow> query_value \<Rightarrow> state \<Rightarrow> StatusResponse" where
  "status_handler method q s =
     (if method \<noteq> ''GET'' then status_error 405 ''Method not allowed''
      else
        (case q of
           QString bid \<Rightarrow>
             if bid = [] then status_error 400 ''Batch ID is required''
             else
               (case getBatchResults bid s of
                  None \<Rightarrow> status_error 404 ''Batch not found or expired''
                | Some batch \<Rightarrow>
                    (let totalRecords = length (results batch);
                         completedRecords =
                           length (filter (\<lambda>r. r_status r = RSuccess \<or> r_status r = RFailed)
                                     (results batch));
                         progress =
                           (if totalRecords > 0
                            then round (real completedRecords / real totalRecords * 100)
                            else 0)
                     in \<lparr>st_code = 200, st_success = True, st_batchId = Some bid,
                         st_status = Some (status batch), st_results = Some (results batch),
                         st_totalSent = Some (totalSent batch),
                         st_totalFailed = Some (totalFailed batch),
                         st_progress = Some progress,
                         st_message = ''Batch '' @ status_text (status batch) @ ''. ''
                           @ dec (totalSent batch) @ '' sent, ''
                           @ dec (totalFailed batch) @ '' failed.''\<rparr>))
         | _ \<Rightarrow> status_error 400 ''Batch ID is required''))"

section \<open>Reachable states\<close>

text \<open>
  The states the endpoint can be in: it starts with an empty store; a request is handled,
  which gives the state when the response is sent and, for an accepted request, the
  state in which its batch has just been stored and \<open>processBatchAsync\<close> is called; a
  background run writes its batch; the \<open>catch\<close> block of a run fires; old batches are
  swept.
\<close>

inductive reachable :: "state \<Rightarrow> bool" where
  initial: "reachable \<lparr>batchResults = Map.empty, provider = p, events = []\<rparr>"
| submitted: "reachable s \<Longrightarrow> handler method body env now random created s = (r, s', launched)
     \<Longrightarrow> reachable s'"
| stored: "reachable s \<Longrightarrow> handler method body env now random created s = (r, s', Some t)
     \<Longrightarrow> reachable (create_batch (batchId t) created s)"
| processed: "reachable s \<Longrightarrow> reachable (processBatchAsync t s)"
| caught: "reachable s \<Longrightarrow> reachable (processBatchAsync_catch bid s)"
| swept: "reachable s \<Longrightarrow> reachable (cleanupOldBatches now s)"

section \<open>Words of the specification and example inputs\<close>

text \<open>A batch whose two counters add up to the number of its results.\<close>

definition counted :: "batch \<Rightarrow> bool" where
  "counted b = (totalSent b + totalFailed b = length (results b))"

text \<open>
  A submission that meets the preconditions: between 1 and 1000 recipients, a subject and
  an HTML content that are present and not empty, and a sender address in the environment.
\<close>

definition valid_submission :: "SendEmailRequest \<Rightarrow> environment \<Rightarrow> bool" where
  "valid_submission body env =
     ((case body_recipients body of
         None \<Rightarrow> False
       | Some rs \<Rightarrow> 0 < length rs \<and> length rs \<le> 1000)
      \<and> truthy (body_subject body) \<and> truthy (body_htmlContent body)
      \<and> (truthy (FROM_EMAIL env) \<or> truthy (NEXT_PUBLIC_FROM_EMAIL env)))"

text \<open>The batch written by the handler, and the identifier it builds.\<close>

definition new_batch :: "nat \<Rightarrow> batch" where
  "new_batch created =
     \<lparr>results = [], status = Processing, totalSent = 0, totalFailed = 0, createdAt = created\<rparr>"

definition new_id :: "nat \<Rightarrow> string \<Rightarrow> string" where
  "new_id now random = ''batch_'' @ dec now @ ''_'' @ random"





text \<open>
  A provider stub that throws on its second call and otherwise returns one identifier
  for every payload; a recipient; a request for \<open>n\<close> copies of it; the state before
  that request, and the state in which its batch has just been stored and the background
  call is made; and that call.
\<close>

definition stub :: "nat \<Rightarrow> payload list \<Rightarrow> send_outcome" where
  "stub k ps =
     (if k = 1 then Throws (JsError ''provider down'')
      else Returns \<lparr>rsp_data = Some (NestedList (map (\<lambda>p. Item (Some ''msg'')) ps)),
                    rsp_error = None\<rparr>)"

definition ann :: EmailRecord where
  "ann = \<lparr>email = ''ann@example.org'', others = [''name'' \<mapsto> JStr ''Ann'']\<rparr>"

definition nobody :: EmailRecord where
  "nobody = \<lparr>email = ''x@example.org'', others = Map.empty\<rparr>"

definition fresh :: state where
  "fresh = \<lparr>batchResults = Map.empty, provider = stub, events = []\<rparr>"

definition request_for :: "nat \<Rightarrow> SendEmailRequest" where
  "request_for n =
     \<lparr>body_recipients = Some (replicate n ann), body_subject = Some ''Hi {{name}}'',
      body_htmlContent = Some ''<p>Hello</p>'', body_textContent = None,
      body_fromName = None\<rparr>"

definition env0 :: environment where
  "env0 = \<lparr>FROM_EMAIL = Some ''example.org'', NEXT_PUBLIC_FROM_EMAIL = None\<rparr>"

definition accepted :: state where
  "accepted = fresh\<lparr>batchResults := [''batch_17_abc'' \<mapsto> new_batch 18]\<rparr>"

definition task_for :: "nat \<Rightarrow> task" where
  "task_for n =
     \<lparr>batchId = ''batch_17_abc'', recipients = replicate n ann, subject = ''Hi {{name}}'',
      htmlContent = ''<p>Hello</p>'', textContent = None,
      fromEmail = ''noreply@example.org'', fromName = None\<rparr>"

text \<open>
  A message as personalized for the recipient above, the result of a delivery of it, and
  a state whose provider always gives the same answer.
\<close>

definition hello :: "string \<Rightarrow> message" where
  "hello addr = \<lparr>m_to = addr, m_subject = ''Hi Ann'', m_html = ''<p>Hello</p>'', m_text = []\<rparr>"

definition delivered :: "string \<Rightarrow> EmailResult" where
  "delivered addr = \<lparr>r_email = addr, r_status = RSuccess, messageId = Some ''msg'', error = None\<rparr>"

definition answering :: "send_outcome \<Rightarrow> state" where
  "answering out = \<lparr>batchResults = Map.empty, provider = (\<lambda>k ps. out), events = []\<rparr>"

text \<open>
  What \<open>sendEmailBatch\<close> returns, as a function of the provider's answer: the results
  pushed in the \<open>try\<close> block, followed by what the \<open>catch\<close> block pushes.
\<close>

definition settle :: "send_outcome \<Rightarrow> message list \<Rightarrow> EmailResult list" where
  "settle out emails =
     (case try_block out emails of
        (pushed, None) \<Rightarrow> pushed
      | (pushed, Some err) \<Rightarrow>
          pushed @ map (\<lambda>e. failed_result (m_to e) (thrown_message err)) emails)"

text \<open>
  The chunk that starts at recipient \<open>i\<close>, as messages and as payloads; the results and
  the trace of the \<open>j\<close>-th pass of the loop, when \<open>c\<close> provider calls were made before
  the loop started; the number of passes for \<open>n\<close> recipients.
\<close>

definition emails_at :: "task \<Rightarrow> nat \<Rightarrow> message list" where
  "emails_at t i = map (personalize t) (take BATCH_SIZE (drop i (recipients t)))"

definition payloads_at :: "task \<Rightarrow> nat \<Rightarrow> payload list" where
  "payloads_at t i = map (email_payload (fromEmail t) (fromName t)) (emails_at t i)"

definition results_at ::
  "task \<Rightarrow> (nat \<Rightarrow> payload list \<Rightarrow> send_outcome) \<Rightarrow> nat \<Rightarrow> nat \<Rightarrow> EmailResult list" where
  "results_at t p c j = settle (p (c + j) (payloads_at t (j * BATCH_SIZE))) (emails_at t (j * BATCH_SIZE))"

definition events_at :: "task \<Rightarrow> nat \<Rightarrow> event list" where
  "events_at t j =
     Sent (payloads_at t (j * BATCH_SIZE))
       # (if j * BATCH_SIZE + BATCH_SIZE < length (recipients t) then [Slept 1000] else [])"

definition rounds :: "nat \<Rightarrow> nat" where
  "rounds n = (n + (BATCH_SIZE - 1)) div BATCH_SIZE"

text \<open>
  A trace in which provider calls and pauses alternate, every pause lasts 1000 ms, and
  the last event is a provider call.
\<close>

fun paced :: "event list \<Rightarrow> bool" where
  "paced [] = True"
| "paced [Sent ps] = True"
| "paced (Sent ps # Slept ms # rest) = (ms = 1000 \<and> rest \<noteq> [] \<and> paced rest)"
| "paced (e # rest) = False"

section \<open>The store between and after the chunks\<close>

lemma sends_append: "sends (xs @ ys) = sends xs @ sends ys"
  by (induction xs rule: sends.induct) simp_all

lemma sendEmailBatch_state:
  "snd (sendEmailBatch emails fe fn s)
     = s\<lparr>events := events s @ [Sent (map (email_payload fe fn) emails)]\<rparr>"
  by (simp add: sendEmailBatch_def resend_batch_send_def Let_def split: prod.splits option.splits)

lemma chunk_step_store:
  "chunk_step t (i, a, s) = (i', a', s') \<Longrightarrow> batchResults s' = batchResults s \<and> provider s' = provider s"
proof -
  assume st: "chunk_step t (i, a, s) = (i', a', s')"
  obtain rs s1 where sb: "sendEmailBatch (map (personalize t) (take BATCH_SIZE (drop i (recipients t))))
       (fromEmail t) (fromName t) s = (rs, s1)"
    by (cases "sendEmailBatch (map (personalize t) (take BATCH_SIZE (drop i (recipients t))))
       (fromEmail t) (fromName t) s") auto
  from sendEmailBatch_state [of "map (personalize t) (take BATCH_SIZE (drop i (recipients t)))" "fromEmail t" "fromName t" s] sb
  have s1: "batchResults s1 = batchResults s \<and> provider s1 = provider s" by simp
  from st sb s1 show ?thesis
    by (auto simp: chunk_step_def Let_def sleep_def split: if_splits)
qed

lemma chunk_loop_step:
  "i < length (recipients t) \<Longrightarrow> chunk_loop t (i, a, s) = chunk_loop t (chunk_step t (i, a, s))"
  by (subst chunk_loop.simps) simp

lemma chunk_loop_done:
  "\<not> i < length (recipients t) \<Longrightarrow> chunk_loop t (i, a, s) = (a, s)"
  by (subst chunk_loop.simps) simp

lemma chunk_loop_store:
  "chunk_loop t x = (a', s') \<Longrightarrow> batchResults s' = batchResults (snd (snd x)) \<and> provider s' = provider (snd (snd x))"
proof (induction t x arbitrary: a' s' rule: chunk_loop.induct)
  case (1 t i allResults s)
  show ?case
  proof (cases "i < length (recipients t)")
    case True
    obtain i1 a1 s1 where st: "chunk_step t (i, allResults, s) = (i1, a1, s1)"
      by (cases "chunk_step t (i, allResults, s)") auto
    from True st have "chunk_loop t (i1, a1, s1) = chunk_loop t (i, allResults, s)"
      by (simp add: chunk_loop_step)
    with "1.prems" have "chunk_loop t (i1, a1, s1) = (a', s')" by simp
    with "1.IH" [OF True] st have "batchResults s' = batchResults s1 \<and> provider s' = provider s1" by simp
    with chunk_step_store [OF st] show ?thesis by simp
  next
    case False
    with "1.prems" show ?thesis by (simp add: chunk_loop_step chunk_loop_done)
  qed
qed

lemma count_status: "length (filter (\<lambda>r. r_status r = RSuccess) xs) + length (filter (\<lambda>r. r_status r = RFailed) xs) = length xs"
proof (induction xs)
  case Nil
  show ?case by simp
next
  case (Cons x xs)
  then show ?case by (cases "r_status x") simp_all
qed

section \<open>The two outcomes of the submit handler\<close>

lemma begin_stored:
  "batchId t = bid \<Longrightarrow> 0 < length (recipients t) \<Longrightarrow>
   processBatchAsync_begin t (create_batch bid created s)
     = (create_batch bid created s)\<lparr>events := events s @ [Sent (payloads_at t 0)]\<rparr>"
  by (simp add: processBatchAsync_begin_def create_batch_def resend_batch_send_def
        payloads_at_def emails_at_def Let_def)

lemma handler_cases:
  assumes h: "handler method body env now random created s = (r, s', launched)"
  shows "(s' = s \<and> launched = None \<and> res_code r \<noteq> 200) \<or>
         (\<exists>rs subj content addr t. 
            method = ''POST'' \<and>
            body_recipients body = Some rs \<and> rs \<noteq> [] \<and> length rs \<le> 1000 \<and>
            body_subject body = Some subj \<and> subj \<noteq> [] \<and>
            body_htmlContent body = Some content \<and> content \<noteq> [] \<and>
            (if truthy (FROM_EMAIL env) then FROM_EMAIL env else NEXT_PUBLIC_FROM_EMAIL env) = Some addr \<and> addr \<noteq> [] \<and>
            t = \<lparr>batchId = ''batch_'' @ dec now @ ''_'' @ random, recipients = rs, subject = subj,
                                     htmlContent = content,
                                     textContent = body_textContent body,
                                     fromEmail = (if CHR ''@'' \<in> set addr then addr else ''noreply@'' @ addr),
                                     fromName = body_fromName body\<rparr> \<and>
            s' = (create_batch (''batch_'' @ dec now @ ''_'' @ random) created s)
                   \<lparr>events := events s @ [Sent (payloads_at t 0)]\<rparr> \<and>
            r = reply 200 True (''Email batch initiated with '' @ dec (length rs) @ '' recipients'') (Some (''batch_'' @ dec now @ ''_'' @ random)) \<and>
            launched = Some t)"
proof (cases "method = ''POST''")
  case False
  with h show ?thesis by (auto simp: handler_def reply_def)
next
  case post: True
  show ?thesis
  proof (cases "body_recipients body")
    case None
    with h post show ?thesis by (auto simp: handler_def reply_def)
  next
    case (Some rs)
    note rs = this
    show ?thesis
    proof (cases "length rs = 0 \<or> \<not> truthy (body_subject body) \<or> \<not> truthy (body_htmlContent body)
        \<or> \<not> truthy (if truthy (FROM_EMAIL env) then FROM_EMAIL env else NEXT_PUBLIC_FROM_EMAIL env)")
      case True
      with h post rs show ?thesis
        by (auto simp: handler_def reply_def Let_def split: if_splits)
    next
      case False
      then obtain subj content addr where v: "body_subject body = Some subj" "subj \<noteq> []"
         "body_htmlContent body = Some content" "content \<noteq> []"
         "(if truthy (FROM_EMAIL env) then FROM_EMAIL env else NEXT_PUBLIC_FROM_EMAIL env) = Some addr" "addr \<noteq> []"
        and ne: "rs \<noteq> []"
        by (auto simp: truthy_def split: option.splits)
      show ?thesis
      proof (cases "length rs > 1000")
        case True
        with h post rs v ne show ?thesis
          by (auto simp: handler_def reply_def Let_def truthy_def)
      next
        case False
        with h post rs v ne show ?thesis
          by (auto simp: handler_def Let_def truthy_def begin_stored)
      qed
    qed
  qed
qed

section \<open>The loop in closed form\<close>

lemma sendEmailBatch_results:
  "fst (sendEmailBatch emails fe fn s)
     = settle (provider s (length (sends (events s))) (map (email_payload fe fn) emails)) emails"
  by (simp add: sendEmailBatch_def resend_batch_send_def settle_def Let_def
        split: prod.splits option.splits)

lemma chunk_step_eq:
  "chunk_step t (j * BATCH_SIZE, a, s)
     = (Suc j * BATCH_SIZE,
        a @ results_at t (provider s) (length (sends (events s)) - j) j,
        s\<lparr>events := events s @ events_at t j\<rparr>)" if "j \<le> length (sends (events s))"
proof -
  let ?emails = "emails_at t (j * BATCH_SIZE)"
  obtain rs s1 where sb: "sendEmailBatch ?emails (fromEmail t) (fromName t) s = (rs, s1)"
    by (cases "sendEmailBatch ?emails (fromEmail t) (fromName t) s") auto
  from sendEmailBatch_results [of ?emails "fromEmail t" "fromName t" s] sb that
  have rs: "rs = results_at t (provider s) (length (sends (events s)) - j) j"
    by (simp add: results_at_def payloads_at_def)
  from sendEmailBatch_state [of ?emails "fromEmail t" "fromName t" s] sb
  have s1: "s1 = s\<lparr>events := events s @ [Sent (payloads_at t (j * BATCH_SIZE))]\<rparr>"
    by (simp add: payloads_at_def)
  from sb rs s1 show ?thesis
    by (simp add: chunk_step_def emails_at_def [symmetric] Let_def sleep_def events_at_def)
qed

lemma sends_events_at: "sends (events_at t j) = [payloads_at t (j * BATCH_SIZE)]"
  by (simp add: events_at_def)

lemma sends_trace:
  "sends (concat (map (events_at t) [0..<k])) = map (\<lambda>j. payloads_at t (j * BATCH_SIZE)) [0..<k]"
  by (induction k) (simp_all add: sends_append sends_events_at)

lemma chunk_steps:
  "(chunk_step t ^^ k) (0, [], s)
     = (k * BATCH_SIZE,
        concat (map (results_at t (provider s) (length (sends (events s)))) [0..<k]),
        s\<lparr>events := events s @ concat (map (events_at t) [0..<k])\<rparr>)"
proof (induction k)
  case 0
  show ?case by simp
next
  case (Suc k)
  let ?s = "s\<lparr>events := events s @ concat (map (events_at t) [0..<k])\<rparr>"
  have n: "length (sends (events ?s)) = length (sends (events s)) + k"
    by (simp add: sends_append sends_trace)
  then have le: "k \<le> length (sends (events ?s))" by simp
  from chunk_step_eq [OF le] n Suc show ?case by simp
qed

lemma chunk_loop_funpow:
  "chunk_loop t (j * BATCH_SIZE, a, s)
     = snd ((chunk_step t ^^ (rounds (length (recipients t)) - j)) (j * BATCH_SIZE, a, s))"
proof (induction "rounds (length (recipients t)) - j" arbitrary: j a s)
  case 0
  then have "\<not> j * BATCH_SIZE < length (recipients t)"
    by (simp add: rounds_def BATCH_SIZE_def)
  with 0 show ?case by (simp add: chunk_loop_done)
next
  case (Suc d)
  then have less: "j * BATCH_SIZE < length (recipients t)"
    by (simp add: rounds_def BATCH_SIZE_def)
  obtain a1 s1 where st: "chunk_step t (j * BATCH_SIZE, a, s) = (Suc j * BATCH_SIZE, a1, s1)"
    using fst_chunk_step [of t "j * BATCH_SIZE" a s]
    by (cases "chunk_step t (j * BATCH_SIZE, a, s)") simp
  from Suc.hyps(2) have d: "d = rounds (length (recipients t)) - Suc j" by simp
  have "chunk_loop t (j * BATCH_SIZE, a, s) = chunk_loop t (Suc j * BATCH_SIZE, a1, s1)"
    using chunk_loop_step [OF less, of a s] st by simp
  also have "\<dots> = snd ((chunk_step t ^^ d) (Suc j * BATCH_SIZE, a1, s1))"
    using Suc.hyps(1) [OF d, of a1 s1] d by simp
  also have "\<dots> = snd ((chunk_step t ^^ Suc d) (j * BATCH_SIZE, a, s))"
    using st by (simp add: funpow_swap1)
  finally show ?case using Suc.hyps(2) by simp
qed

lemma chunk_loop_eq:
  "chunk_loop t (0, [], s)
     = (concat (map (results_at t (provider s) (length (sends (events s))))
                  [0..<rounds (length (recipients t))]),
        s\<lparr>events := events s @ concat (map (events_at t) [0..<rounds (length (recipients t))])\<rparr>)"
  using chunk_loop_funpow [where t = t and j = 0 and a = "[]" and s = s] chunk_steps [where t = t and k = "rounds (length (recipients t))" and s = s]
  by simp

section \<open>Provider calls and pauses of the loop\<close>

lemma rounds_ceiling: "rounds n = nat \<lceil>real n / 100\<rceil>"
proof -
  let ?q = "(n + 99) div 100"
  have "\<lceil>real n / 100\<rceil> = int ?q"
  proof (rule ceiling_unique)
    have "100 * ?q < n + 100" by arith
    then have "real (100 * ?q) < real (n + 100)" by (simp only: of_nat_less_iff)
    then show "of_int (int ?q) - 1 < real n / 100" by simp
    have "n \<le> 100 * ?q" by arith
    then have "real n \<le> real (100 * ?q)" by (simp only: of_nat_le_iff)
    then show "real n / 100 \<le> of_int (int ?q)" by simp
  qed
  then show ?thesis by (simp add: rounds_def BATCH_SIZE_def)
qed

lemma more_rounds: "Suc j < rounds n \<longleftrightarrow> j * BATCH_SIZE + BATCH_SIZE < n"
  by (simp add: rounds_def BATCH_SIZE_def) arith

lemma paced_from:
  "j < rounds (length (recipients t)) \<Longrightarrow>
     paced (concat (map (events_at t) [j..<rounds (length (recipients t))]))"
proof (induction "rounds (length (recipients t)) - j" arbitrary: j)
  case 0
  then show ?case by simp
next
  case (Suc d)
  let ?k = "rounds (length (recipients t))"
  from Suc.prems have split: "[j..<?k] = j # [Suc j..<?k]" by (rule upt_conv_Cons)
  show ?case
  proof (cases "Suc j < ?k")
    case True
    then have more: "j * BATCH_SIZE + BATCH_SIZE < length (recipients t)"
      by (simp add: more_rounds)
    from Suc.hyps(2) have "d = ?k - Suc j" by simp
    from Suc.hyps(1) [OF this True] have rest: "paced (concat (map (events_at t) [Suc j..<?k]))" .
    from True have "[Suc j..<?k] = Suc j # [Suc (Suc j)..<?k]" by (rule upt_conv_Cons)
    then have "concat (map (events_at t) [Suc j..<?k]) \<noteq> []"
      by (simp add: events_at_def)
    with rest more split show ?thesis by (simp add: events_at_def)
  next
    case False
    with Suc.prems have last: "Suc j = ?k" by simp
    from False more_rounds [of j "length (recipients t)"]
    have "\<not> j * BATCH_SIZE + BATCH_SIZE < length (recipients t)" by blast
    with split last [symmetric] show ?thesis by (simp add: events_at_def)
  qed
qed

lemma paced_trace: "paced (concat (map (events_at t) [0..<rounds (length (recipients t))]))"
proof (cases "0 < rounds (length (recipients t))")
  case True
  then show ?thesis by (rule paced_from)
next
  case False
  then show ?thesis by simp
qed

lemma concat_chunks:
  "concat (map (\<lambda>j. take BATCH_SIZE (drop (j * BATCH_SIZE) xs)) [0..<k]) = take (k * BATCH_SIZE) xs"
proof (induction k)
  case 0
  show ?case by simp
next
  case (Suc k)
  have "take (k * BATCH_SIZE + BATCH_SIZE) xs
          = take (k * BATCH_SIZE) xs @ take BATCH_SIZE (drop (k * BATCH_SIZE) xs)"
    by (rule take_add)
  with Suc show ?case by (simp add: add.commute)
qed

lemma rounds_cover: "n \<le> rounds n * BATCH_SIZE"
  by (simp add: rounds_def BATCH_SIZE_def)

lemma concat_payloads:
  "concat (map (\<lambda>j. payloads_at t (j * BATCH_SIZE)) [0..<rounds (length (recipients t))])
     = map (\<lambda>r. email_payload (fromEmail t) (fromName t) (personalize t r)) (recipients t)"
proof -
  let ?f = "\<lambda>r. email_payload (fromEmail t) (fromName t) (personalize t r)"
  let ?k = "rounds (length (recipients t))"
  have "concat (map (\<lambda>j. payloads_at t (j * BATCH_SIZE)) [0..<?k])
          = concat (map (map ?f) (map (\<lambda>j. take BATCH_SIZE (drop (j * BATCH_SIZE) (recipients t))) [0..<?k]))"
    by (simp add: payloads_at_def emails_at_def comp_def)
  also have "\<dots> = map ?f (concat (map (\<lambda>j. take BATCH_SIZE (drop (j * BATCH_SIZE) (recipients t))) [0..<?k]))"
    by (simp only: map_concat)
  also have "\<dots> = map ?f (recipients t)"
    using rounds_cover [of "length (recipients t)"] by (simp only: concat_chunks) simp
  finally show ?thesis .
qed

lemma length_payloads_at: "length (payloads_at t i) \<le> BATCH_SIZE"
  by (simp add: payloads_at_def emails_at_def)

text \<open>
  C4. For a batch of \<open>N\<close> recipients the loop adds to the trace exactly
  \<open>ceil(N / 100)\<close> provider calls, each over at most 100 payloads; the payloads of all
  calls, in the order of the calls, are those of the recipients in input order; and the
  trace is paced: a pause of 1000 ms stands between two consecutive calls and nowhere
  else, so none follows the last call. (This holds for every \<open>N\<close>, in particular for
  \<open>1 \<le> N \<le> 1000\<close>.)
\<close>

theorem chunk_loop_pacing:
  "\<exists>E. events (snd (chunk_loop t (0, [], s))) = events s @ E
      \<and> length (sends E) = nat \<lceil>real (length (recipients t)) / 100\<rceil>
      \<and> (\<forall>ps \<in> set (sends E). length ps \<le> 100)
      \<and> concat (sends E)
           = map (\<lambda>r. email_payload (fromEmail t) (fromName t) (personalize t r)) (recipients t)
      \<and> paced E"
proof -
  let ?E = "concat (map (events_at t) [0..<rounds (length (recipients t))])"
  have ev: "events (snd (chunk_loop t (0, [], s))) = events s @ ?E"
    by (simp add: chunk_loop_eq)
  have n: "length (sends ?E) = nat \<lceil>real (length (recipients t)) / 100\<rceil>"
    by (simp add: sends_trace rounds_ceiling)
  have le: "\<forall>ps \<in> set (sends ?E). length ps \<le> 100"
    using length_payloads_at [of t] by (auto simp: sends_trace BATCH_SIZE_def)
  have order: "concat (sends ?E)
      = map (\<lambda>r. email_payload (fromEmail t) (fromName t) (personalize t r)) (recipients t)"
    by (simp only: sends_trace concat_payloads)
  from ev n le order paced_trace [of t] show ?thesis by blast
qed

theorem chunk_loop_pacing_witness:
  "\<exists>E. events (snd (chunk_loop (task_for 150) (0, [], accepted))) = events accepted @ E
      \<and> length (sends E) = 2
      \<and> (\<forall>ps \<in> set (sends E). length ps \<le> 100)
      \<and> concat (sends E)
           = map (\<lambda>r. email_payload (fromEmail (task_for 150)) (fromName (task_for 150))
                         (personalize (task_for 150) r))
               (recipients (task_for 150))
      \<and> paced E"
proof -
  have "nat \<lceil>real (length (recipients (task_for 150))) / 100\<rceil> = 2"
    by (simp add: task_for_def)
  with chunk_loop_pacing [of "task_for 150" accepted] show ?thesis by simp
qed

section \<open>Every transition keeps the counters right\<close>

lemma processBatchAsync_counted:
  assumes inv: "\<And>bid b. batchResults s bid = Some b \<Longrightarrow> counted b"
    and got: "batchResults (processBatchAsync t s) bid = Some b"
  shows "counted b"
proof (cases "batchResults s (batchId t)")
  case None
  with got inv show ?thesis by (simp add: processBatchAsync_def)
next
  case (Some old)
  obtain a' s' where loop: "chunk_loop t (0, [], s) = (a', s')"
    by (cases "chunk_loop t (0, [], s)") auto
  from chunk_loop_store [OF loop] have same: "batchResults s' = batchResults s" by simp
  show ?thesis
  proof (cases "bid = batchId t")
    case True
    with got Some loop have "b = \<lparr>results = a', status = Completed, totalSent = length (filter (\<lambda>r. r_status r = RSuccess) a'),
                   totalFailed = length (filter (\<lambda>r. r_status r = RFailed) a'), createdAt = createdAt old\<rparr>"
      by (simp add: processBatchAsync_def)
    then show ?thesis by (simp add: counted_def count_status)
  next
    case False
    with got Some loop same have "batchResults s bid = Some b"
      by (simp add: processBatchAsync_def)
    with inv show ?thesis .
  qed
qed

lemma handler_counted:
  assumes inv: "\<And>bid b. batchResults s bid = Some b \<Longrightarrow> counted b"
    and h: "handler method body env now random created s = (r, s', launched)"
    and got: "batchResults s' bid = Some b"
  shows "counted b"
  using handler_cases [OF h] got inv
  by (auto simp: counted_def create_batch_def split: if_splits)

lemma create_counted:
  assumes inv: "\<And>bid b. batchResults s bid = Some b \<Longrightarrow> counted b"
    and got: "batchResults (create_batch k created s) bid = Some b"
  shows "counted b"
  using got inv
  by (auto simp: counted_def create_batch_def split: if_splits)

lemma catch_counted:
  assumes inv: "\<And>bid b. batchResults s bid = Some b \<Longrightarrow> counted b"
    and got: "batchResults (processBatchAsync_catch k s) bid = Some b"
  shows "counted b"
  using got inv
  by (auto simp: processBatchAsync_catch_def counted_def split: option.splits if_splits)

lemma sweep_counted:
  assumes inv: "\<And>bid b. batchResults s bid = Some b \<Longrightarrow> counted b"
    and got: "batchResults (cleanupOldBatches now s) bid = Some b"
  shows "counted b"
  using got inv
  by (auto simp: cleanupOldBatches_def split: option.splits if_splits)

lemma reachable_counted: "reachable s \<Longrightarrow> batchResults s bid = Some b \<Longrightarrow> counted b"
proof (induction arbitrary: bid b rule: reachable.induct)
  case (initial p)
  then show ?case by simp
next
  case (submitted s meth req env now random created r s' launched)
  from handler_counted [OF submitted.IH submitted.hyps(2) submitted.prems] show ?case .
next
  case (stored s meth req env now random created r s' t)
  from create_counted [OF stored.IH stored.prems] show ?case .
next
  case (processed s t)
  from processBatchAsync_counted [OF processed.IH processed.prems] show ?case .
next
  case (caught s k)
  from catch_counted [OF caught.IH caught.prems] show ?case .
next
  case (swept s now)
  from sweep_counted [OF swept.IH swept.prems] show ?case .
qed



lemma reachable_ids: "reachable s \<Longrightarrow> batchResults s bid = Some b \<Longrightarrow> bid \<noteq> []"
proof (induction arbitrary: b rule: reachable.induct)
  case (initial p)
  then show ?case by simp
next
  case (submitted s meth req env now random created r s' launched)
  from handler_cases [OF submitted.hyps(2)] submitted.prems submitted.IH
  show ?case by (auto simp: create_batch_def split: if_splits)
next
  case (stored s meth req env now random created r s' t)
  from handler_cases [OF stored.hyps(2)] stored.prems stored.IH
  show ?case by (auto simp: create_batch_def split: if_splits)
next
  case (processed s t)
  show ?case
  proof (cases "batchResults s (batchId t)")
    case None
    with processed show ?thesis by (simp add: processBatchAsync_def)
  next
    case (Some old)
    obtain a' s' where loop: "chunk_loop t (0, [], s) = (a', s')"
      by (cases "chunk_loop t (0, [], s)") auto
    from chunk_loop_store [OF loop] have same: "batchResults s' = batchResults s" by simp
    show ?thesis
    proof (cases "bid = batchId t")
      case True
      with Some processed.IH show ?thesis by simp
    next
      case False
      with processed.prems Some loop same have "batchResults s bid = Some b"
        by (simp add: processBatchAsync_def)
      with processed.IH show ?thesis .
    qed
  qed
next
  case (caught s k)
  then show ?case
    by (auto simp: processBatchAsync_catch_def split: option.splits if_splits)
next
  case (swept s now)
  then show ?case
    by (auto simp: cleanupOldBatches_def split: option.splits if_splits)
qed

lemma dec_17: "dec 17 = ''17''"
  by code_simp

lemma handler_accepts:
  "0 < n \<Longrightarrow> n \<le> 1000 \<Longrightarrow>
   handler ''POST'' (request_for n) env0 17 ''abc'' 18 fresh
     = (reply 200 True (''Email batch initiated with '' @ dec n @ '' recipients'')
          (Some ''batch_17_abc''),
        accepted\<lparr>events := [Sent (payloads_at (task_for n) 0)]\<rparr>, Some (task_for n))"
  by (simp add: handler_def request_for_def env0_def truthy_def fresh_def accepted_def
        new_batch_def task_for_def dec_17 Let_def processBatchAsync_begin_def
        create_batch_def resend_batch_send_def payloads_at_def emails_at_def)

lemma reachable_accepted: "reachable accepted"
proof -
  have "reachable fresh"
    unfolding fresh_def by (rule reachable.initial)
  moreover have "handler ''POST'' (request_for 1) env0 17 ''abc'' 18 fresh
     = (reply 200 True (''Email batch initiated with '' @ dec 1 @ '' recipients'')
          (Some ''batch_17_abc''),
        accepted\<lparr>events := [Sent (payloads_at (task_for 1) 0)]\<rparr>, Some (task_for 1))"
    by (rule handler_accepts) simp_all
  ultimately have "reachable (create_batch (batchId (task_for 1)) 18 fresh)"
    by (rule reachable.stored)
  moreover have "create_batch (batchId (task_for 1)) 18 fresh = accepted"
    by (simp add: create_batch_def task_for_def accepted_def new_batch_def fresh_def)
  ultimately show ?thesis by simp
qed

section \<open>The catch block of the background run\<close>

text \<open>
  C10. When the \<open>catch\<close> block of \<open>processBatchAsync\<close> runs and the batch is in the store,
  the stored entry gets status \<open>failed\<close> and keeps its results, its two counters and its
  creation time, and no other entry changes; when the batch is not in the store, the
  store is unchanged.
\<close>

theorem catch_frame:
  "(batchResults s bid = Some b \<longrightarrow>
      (\<exists>b'. batchResults (processBatchAsync_catch bid s) bid = Some b'
          \<and> status b' = Failed \<and> results b' = results b \<and> totalSent b' = totalSent b
          \<and> totalFailed b' = totalFailed b \<and> createdAt b' = createdAt b)
      \<and> (\<forall>k. k \<noteq> bid \<longrightarrow> batchResults (processBatchAsync_catch bid s) k = batchResults s k))
   \<and> (batchResults s2 bid2 = None \<longrightarrow>
        batchResults (processBatchAsync_catch bid2 s2) = batchResults s2)"
  by (simp add: processBatchAsync_catch_def)

theorem catch_frame_witness:
  "(\<exists>b'. batchResults (processBatchAsync_catch ''batch_17_abc'' accepted) ''batch_17_abc'' = Some b'
          \<and> status b' = Failed \<and> results b' = [] \<and> totalSent b' = 0
          \<and> totalFailed b' = 0 \<and> createdAt b' = 18)
   \<and> batchResults (processBatchAsync_catch ''batch_17_abc'' fresh) = Map.empty"
  using catch_frame [of accepted "''batch_17_abc''" "new_batch 18" fresh "''batch_17_abc''"]
  by (simp add: accepted_def fresh_def new_batch_def)

section \<open>What a chunk returns\<close>

lemma forEach_items_zip:
  "forEach_items emails items
     = (map (\<lambda>(e, it). item_result (m_to e) it) (zip emails items),
        if length emails < length items then Some undefined_to else None)"
  by (induction emails items rule: forEach_items.induct) simp_all

lemma settle_throws:
  "settle (Throws ex) emails = map (\<lambda>e. failed_result (m_to e) (thrown_message ex)) emails"
  by (simp add: settle_def try_block_def)

lemma settle_error:
  "rsp_data rsp = None \<or> rsp_error rsp \<noteq> None \<Longrightarrow>
     settle (Returns rsp) emails = map (\<lambda>e. failed_result (m_to e) (error_text (rsp_error rsp))) emails"
  by (auto simp: settle_def try_block_def)

lemma settle_list:
  "rsp_data rsp = Some (FlatList items) \<or> rsp_data rsp = Some (NestedList items) \<Longrightarrow>
   rsp_error rsp = None \<Longrightarrow> length items \<le> length emails \<Longrightarrow>
     settle (Returns rsp) emails = map (\<lambda>(e, it). item_result (m_to e) it) (zip emails items)"
  by (auto simp: settle_def try_block_def forEach_items_zip)

lemma settle_single:
  "rsp_data rsp = Some (SingleObject it) \<Longrightarrow> rsp_error rsp = None \<Longrightarrow>
     settle (Returns rsp) (e # es) = [item_result (m_to e) it]"
  by (simp add: settle_def try_block_def)

lemma render_ann: "replaceVariables ''Hi {{name}}'' ann = ''Hi Ann''"
  by (simp add: replaceVariables_def match_token_def not_close_def replacer_def trim_def
        is_space_def get_prop_def inherited_def native_methods_def ann_def)

lemma render_plain: "replaceVariables ''<p>Hello</p>'' ann = ''<p>Hello</p>''"
  by (simp add: replaceVariables_def match_token_def)

lemma render_empty: "replaceVariables [] data = []"
  by (simp add: replaceVariables_def)

lemma personalize_ann: "personalize (task_for n) ann = hello ''ann@example.org''"
  by (simp add: personalize_def task_for_def render_ann render_plain render_empty hello_def
        text_or_default_def) (simp add: ann_def)

lemma emails_at_example:
  "emails_at (task_for n) i = replicate (min BATCH_SIZE (n - i)) (hello ''ann@example.org'')"
proof -
  have "emails_at (task_for n) i = map (personalize (task_for n)) (replicate (min BATCH_SIZE (n - i)) ann)"
    by (simp add: emails_at_def task_for_def min.commute)
  then show ?thesis by (simp add: personalize_ann)
qed

lemma results_at_ok:
  "c + j \<noteq> 1 \<Longrightarrow>
   results_at (task_for n) stub c j
     = replicate (min BATCH_SIZE (n - j * BATCH_SIZE)) (delivered ''ann@example.org'')"
  by (simp add: results_at_def payloads_at_def emails_at_example stub_def settle_list [where items = "replicate (min BATCH_SIZE (n - j * BATCH_SIZE)) (Item (Some ''msg''))"]
        zip_replicate map_replicate item_result_def truthy_def delivered_def hello_def)

lemma results_at_thrown:
  "c + j = 1 \<Longrightarrow>
   results_at (task_for n) stub c j
     = replicate (min BATCH_SIZE (n - j * BATCH_SIZE)) (failed_result ''ann@example.org'' ''provider down'')"
  by (simp add: results_at_def emails_at_example stub_def settle_throws thrown_message_def hello_def)

lemma rounds_150: "rounds 150 = 2"
  by (simp add: rounds_def BATCH_SIZE_def)

lemma upt_2: "[0..<2] = [0, 1]"
  by (simp add: upt_rec)

lemma loop_150:
  "fst (chunk_loop (task_for 150) (0, [], accepted))
     = replicate 100 (delivered ''ann@example.org'')
       @ replicate 50 (failed_result ''ann@example.org'' ''provider down'')"
proof -
  have n: "length (recipients (task_for 150)) = 150" by (simp add: task_for_def)
  have p: "provider accepted = stub" "length (sends (events accepted)) = 0"
    by (simp_all add: accepted_def fresh_def)
  show ?thesis
    by (simp add: chunk_loop_eq n p rounds_150 upt_2 results_at_ok results_at_thrown BATCH_SIZE_def)
qed


lemma processBatchAsync_stored:
  assumes stored: "batchResults s (batchId t) = Some b"
  shows "batchResults (processBatchAsync t s)
     = (batchResults s)(batchId t \<mapsto>
         \<lparr>results = fst (chunk_loop t (0, [], s)), status = Completed,
          totalSent = length (filter (\<lambda>r. r_status r = RSuccess) (fst (chunk_loop t (0, [], s)))),
          totalFailed = length (filter (\<lambda>r. r_status r = RFailed) (fst (chunk_loop t (0, [], s)))),
          createdAt = createdAt b\<rparr>)"
  by (simp add: processBatchAsync_def stored chunk_loop_eq)

lemma finished_150:
  "batchResults (processBatchAsync (task_for 150) accepted) ''batch_17_abc''
     = Some \<lparr>results = replicate 100 (delivered ''ann@example.org'')
                 @ replicate 50 (failed_result ''ann@example.org'' ''provider down''),
              status = Completed, totalSent = 100, totalFailed = 50, createdAt = 18\<rparr>"
proof -
  have stored: "batchResults accepted (batchId (task_for 150)) = Some (new_batch 18)"
    by (simp add: accepted_def task_for_def)
  have bid: "batchId (task_for 150) = ''batch_17_abc''" by (simp add: task_for_def)
  have sent: "length (filter (\<lambda>r. r_status r = RSuccess)
                 (replicate 100 (delivered ''ann@example.org'')
                  @ replicate 50 (failed_result ''ann@example.org'' ''provider down''))) = 100"
    by (simp add: delivered_def failed_result_def)
  have failed: "length (filter (\<lambda>r. r_status r = RFailed)
                 (replicate 100 (delivered ''ann@example.org'')
                  @ replicate 50 (failed_result ''ann@example.org'' ''provider down''))) = 50"
    by (simp add: delivered_def failed_result_def)
  from processBatchAsync_stored [OF stored] have
    "batchResults (processBatchAsync (task_for 150) accepted) (batchId (task_for 150))
       = Some \<lparr>results = fst (chunk_loop (task_for 150) (0, [], accepted)), status = Completed,
          totalSent = length (filter (\<lambda>r. r_status r = RSuccess) (fst (chunk_loop (task_for 150) (0, [], accepted)))),
          totalFailed = length (filter (\<lambda>r. r_status r = RFailed) (fst (chunk_loop (task_for 150) (0, [], accepted)))),
          createdAt = createdAt (new_batch 18)\<rparr>"
    by simp
  then show ?thesis
    by (simp only: loop_150 sent failed bid) (simp add: new_batch_def)
qed

lemma first_step_150:
  "chunk_step (task_for 150) (0, [], accepted)
     = (100, replicate 100 (delivered ''ann@example.org''),
        accepted\<lparr>events := events accepted @ events_at (task_for 150) 0\<rparr>)"
proof -
  have p: "provider accepted = stub" "length (sends (events accepted)) = 0"
    by (simp_all add: accepted_def fresh_def)
  from chunk_step_eq [where j = 0 and s = accepted and t = "task_for 150" and a = "[]"] p show ?thesis
    by (simp add: results_at_ok BATCH_SIZE_def)
qed


text \<open>
  Against C6 as stated: two messages and a provider that answers with a single object
  give one outcome, a success for the first message; the second message gets none.
\<close>

theorem sendEmailBatch_single_counterexample:
  "fst (sendEmailBatch [hello ''a@example.org'', hello ''b@example.org''] ''noreply@example.org'' None
          (answering (Returns \<lparr>rsp_data = Some (SingleObject (Item (Some ''msg''))),
                               rsp_error = None\<rparr>)))
     = [delivered ''a@example.org'']"
  by (simp add: sendEmailBatch_results answering_def settle_single item_result_def truthy_def
        delivered_def hello_def)


text \<open>
  C6, amended. For a chunk of \<open>n\<close> messages \<open>sendEmailBatch\<close> returns exactly \<open>n\<close> outcomes,
  outcome \<open>i\<close> for message \<open>i\<close>, all failed, when the provider call throws (with the
  exception's message) and when the response carries an error or no data (with the
  provider's error message, or \<open>Batch send failed\<close>). For a flat or nested list of
  \<open>m \<le> n\<close> items it returns exactly \<open>m\<close> outcomes, outcome \<open>i\<close> for message \<open>i\<close> and item
  \<open>i\<close>, so exactly \<open>n\<close> when \<open>m = n\<close>. For a single object it returns one outcome, for
  the first message.
\<close>

theorem sendEmailBatch_outcomes:
  "(fst (resend_batch_send (map (email_payload fe fn) emails) s1) = Throws ex \<longrightarrow>
      fst (sendEmailBatch emails fe fn s1)
        = map (\<lambda>e. failed_result (m_to e) (thrown_message ex)) emails)
   \<and> (fst (resend_batch_send (map (email_payload fe fn) emails) s2) = Returns rsp
        \<and> (rsp_data rsp = None \<or> rsp_error rsp \<noteq> None) \<longrightarrow>
      fst (sendEmailBatch emails fe fn s2)
        = map (\<lambda>e. failed_result (m_to e) (error_text (rsp_error rsp))) emails)
   \<and> (fst (resend_batch_send (map (email_payload fe fn) emails) s3)
          = Returns \<lparr>rsp_data = Some d, rsp_error = None\<rparr>
        \<and> (d = FlatList items \<or> d = NestedList items) \<and> length items \<le> length emails \<longrightarrow>
      fst (sendEmailBatch emails fe fn s3)
        = map (\<lambda>(e, it). item_result (m_to e) it) (zip emails items))
   \<and> (fst (resend_batch_send (map (email_payload fe fn) (e # es)) s4)
          = Returns \<lparr>rsp_data = Some (SingleObject it), rsp_error = None\<rparr> \<longrightarrow>
      fst (sendEmailBatch (e # es) fe fn s4) = [item_result (m_to e) it])"
proof (intro conjI impI)
  assume "fst (resend_batch_send (map (email_payload fe fn) emails) s1) = Throws ex"
  then show "fst (sendEmailBatch emails fe fn s1)
        = map (\<lambda>e. failed_result (m_to e) (thrown_message ex)) emails"
    by (simp add: sendEmailBatch_results resend_batch_send_def settle_throws)
next
  assume "fst (resend_batch_send (map (email_payload fe fn) emails) s2) = Returns rsp
        \<and> (rsp_data rsp = None \<or> rsp_error rsp \<noteq> None)"
  then show "fst (sendEmailBatch emails fe fn s2)
        = map (\<lambda>e. failed_result (m_to e) (error_text (rsp_error rsp))) emails"
    by (simp add: sendEmailBatch_results resend_batch_send_def settle_error)
next
  assume a: "fst (resend_batch_send (map (email_payload fe fn) emails) s3)
          = Returns \<lparr>rsp_data = Some d, rsp_error = None\<rparr>
        \<and> (d = FlatList items \<or> d = NestedList items) \<and> length items \<le> length emails"
  then have "settle (Returns \<lparr>rsp_data = Some d, rsp_error = None\<rparr>) emails
      = map (\<lambda>(e, it). item_result (m_to e) it) (zip emails items)"
    by (intro settle_list) auto
  with a show "fst (sendEmailBatch emails fe fn s3)
        = map (\<lambda>(e, it). item_result (m_to e) it) (zip emails items)"
    by (simp add: sendEmailBatch_results resend_batch_send_def)
next
  assume "fst (resend_batch_send (map (email_payload fe fn) (e # es)) s4)
          = Returns \<lparr>rsp_data = Some (SingleObject it), rsp_error = None\<rparr>"
  then show "fst (sendEmailBatch (e # es) fe fn s4) = [item_result (m_to e) it]"
    by (simp add: sendEmailBatch_results resend_batch_send_def settle_single)
qed

theorem sendEmailBatch_outcomes_witness:
  "fst (sendEmailBatch [hello ''a@example.org'', hello ''b@example.org''] ''noreply@example.org''
          None (answering (Throws NotAnError)))
     = [failed_result ''a@example.org'' ''Unknown error'',
        failed_result ''b@example.org'' ''Unknown error'']
   \<and> fst (sendEmailBatch [hello ''a@example.org'', hello ''b@example.org''] ''noreply@example.org''
          None (answering (Returns \<lparr>rsp_data = None,
                  rsp_error = Some (ProviderError (Some ''rate limited''))\<rparr>)))
     = [failed_result ''a@example.org'' ''rate limited'',
        failed_result ''b@example.org'' ''rate limited'']
   \<and> fst (sendEmailBatch [hello ''a@example.org'', hello ''b@example.org''] ''noreply@example.org''
          None (answering (Returns \<lparr>rsp_data = Some (FlatList [Item (Some ''msg''), Item None]),
                  rsp_error = None\<rparr>)))
     = [delivered ''a@example.org'', failed_result ''b@example.org'' ''No message ID returned'']
   \<and> fst (sendEmailBatch [hello ''a@example.org'', hello ''b@example.org''] ''noreply@example.org''
          None (answering (Returns \<lparr>rsp_data = Some (SingleObject (Item None)),
                  rsp_error = None\<rparr>)))
     = [failed_result ''a@example.org'' ''No message ID returned'']"
  using sendEmailBatch_outcomes
    [where emails = "[hello ''a@example.org'', hello ''b@example.org'']"
       and fe = "''noreply@example.org''" and fn = None
       and ?s1.0 = "answering (Throws NotAnError)" and ex = NotAnError
       and ?s2.0 = "answering (Returns \<lparr>rsp_data = None,
                      rsp_error = Some (ProviderError (Some ''rate limited''))\<rparr>)"
       and rsp = "\<lparr>rsp_data = None, rsp_error = Some (ProviderError (Some ''rate limited''))\<rparr>"
       and ?s3.0 = "answering (Returns \<lparr>rsp_data = Some (FlatList [Item (Some ''msg''), Item None]),
                      rsp_error = None\<rparr>)"
       and d = "FlatList [Item (Some ''msg''), Item None]"
       and items = "[Item (Some ''msg''), Item None]"
       and e = "hello ''a@example.org''" and es = "[hello ''b@example.org'']"
       and ?s4.0 = "answering (Returns \<lparr>rsp_data = Some (SingleObject (Item None)),
                      rsp_error = None\<rparr>)"
       and it = "Item None"]
  by (simp add: resend_batch_send_def answering_def thrown_message_def error_text_def truthy_def
        item_result_def hello_def delivered_def)

section \<open>The counters in every reachable state\<close>

text \<open>
  C5. In every reachable state, every stored batch has
  \<open>totalSent + totalFailed = results.length\<close>, and neither counter is negative (they are
  lengths). The reachable states include the state right after creation, the state after
  each write of a background run, and the states in which a batch is \<open>completed\<close> or
  \<open>failed\<close>.
\<close>

theorem counts_match_results:
  "reachable s \<Longrightarrow> batchResults s bid = Some b \<Longrightarrow>
     totalSent b + totalFailed b = length (results b) \<and> 0 \<le> totalSent b \<and> 0 \<le> totalFailed b"
  using reachable_counted [of s bid b] by (simp add: counted_def)

theorem counts_match_results_witness:
  "reachable (processBatchAsync (task_for 150) accepted)
   \<and> batchResults (processBatchAsync (task_for 150) accepted) ''batch_17_abc''
       = Some \<lparr>results = replicate 100 (delivered ''ann@example.org'')
                   @ replicate 50 (failed_result ''ann@example.org'' ''provider down''),
                status = Completed, totalSent = 100, totalFailed = 50, createdAt = 18\<rparr>
   \<and> (100::nat) + 50
       = length (replicate 100 (delivered ''ann@example.org'')
                 @ replicate 50 (failed_result ''ann@example.org'' ''provider down''))"
proof -
  have r: "reachable (processBatchAsync (task_for 150) accepted)"
    using reachable_accepted by (rule reachable.processed)
  from counts_match_results [OF r finished_150] r finished_150
  show ?thesis by simp
qed

section \<open>A provider call that throws\<close>

text \<open>
  Against C1 as stated: 150 recipients, a provider that throws on its second call. The
  batch ends \<open>completed\<close> and its results hold all 150 recipients, the last 50 as failed.
\<close>

theorem thrown_chunk_counterexample:
  "batchResults (processBatchAsync (task_for 150) accepted) ''batch_17_abc''
     = Some \<lparr>results = replicate 100 (delivered ''ann@example.org'')
                 @ replicate 50 (failed_result ''ann@example.org'' ''provider down''),
              status = Completed, totalSent = 100, totalFailed = 50, createdAt = 18\<rparr>
   \<and> stub 1 (payloads_at (task_for 150) 100) = Throws (JsError ''provider down'')"
  by (simp add: finished_150 stub_def)

text \<open>
  C1, amended. When the provider call for chunk \<open>j\<close> throws, \<open>sendEmailBatch\<close> catches the
  exception: the batch ends with status \<open>completed\<close>, and its stored results are the
  outcomes of the chunks before \<open>j\<close>, then one failed outcome with the exception's
  message for every recipient of chunk \<open>j\<close>, then the outcomes of the chunks after \<open>j\<close>,
  which are still sent.
\<close>

theorem thrown_chunk_is_failed:
  assumes stored: "batchResults s (batchId t) = Some b"
    and j: "j < rounds (length (recipients t))"
    and throws: "provider s (length (sends (events s)) + j) (payloads_at t (j * BATCH_SIZE))
                   = Throws ex"
  shows "\<exists>b'. batchResults (processBatchAsync t s) (batchId t) = Some b'
           \<and> status b' = Completed
           \<and> results b'
               = concat (map (results_at t (provider s) (length (sends (events s)))) [0..<j])
                 @ map (\<lambda>r. failed_result (email r) (thrown_message ex))
                     (take BATCH_SIZE (drop (j * BATCH_SIZE) (recipients t)))
                 @ concat (map (results_at t (provider s) (length (sends (events s))))
                     [Suc j..<rounds (length (recipients t))])"
proof -
  let ?R = "results_at t (provider s) (length (sends (events s)))"
  let ?k = "rounds (length (recipients t))"
  from j obtain d where k: "?k = j + Suc d"
    by (auto dest: less_imp_Suc_add)
  have "[0..<j + Suc d] = [0..<j] @ [j..<j + Suc d]"
    by (rule upt_add_eq_append) simp
  moreover have "[j..<j + Suc d] = j # [Suc j..<j + Suc d]"
    by (rule upt_conv_Cons) simp
  ultimately have "[0..<?k] = [0..<j] @ j # [Suc j..<?k]"
    by (simp only: k)
  then have "concat (map ?R [0..<?k]) = concat (map ?R [0..<j]) @ ?R j @ concat (map ?R [Suc j..<?k])"
    by simp
  moreover from throws have "?R j = map (\<lambda>r. failed_result (email r) (thrown_message ex))
                     (take BATCH_SIZE (drop (j * BATCH_SIZE) (recipients t)))"
    by (simp add: results_at_def settle_throws emails_at_def personalize_def comp_def)
  ultimately show ?thesis
    by (simp add: processBatchAsync_stored [OF stored] chunk_loop_eq)
qed

theorem thrown_chunk_is_failed_witness:
  "\<exists>b'. batchResults (processBatchAsync (task_for 150) accepted) ''batch_17_abc'' = Some b'
           \<and> status b' = Completed
           \<and> results b'
               = replicate 100 (delivered ''ann@example.org'')
                 @ replicate 50 (failed_result ''ann@example.org'' ''provider down'')"
proof -
  have stored: "batchResults accepted (batchId (task_for 150)) = Some (new_batch 18)"
    by (simp add: accepted_def task_for_def)
  have j: "1 < rounds (length (recipients (task_for 150)))"
    by (simp add: task_for_def rounds_150)
  have p: "provider accepted = stub" "length (sends (events accepted)) = 0"
    by (simp_all add: accepted_def fresh_def)
  have throws: "provider accepted (length (sends (events accepted)) + 1)
       (payloads_at (task_for 150) (1 * BATCH_SIZE)) = Throws (JsError ''provider down'')"
    by (simp add: p stub_def)
  have r: "recipients (task_for 150) = replicate 150 ann" "batchId (task_for 150) = ''batch_17_abc''"
    by (simp_all add: task_for_def)
  from thrown_chunk_is_failed [OF stored j throws] show ?thesis
    by (simp add: p r rounds_150 results_at_ok BATCH_SIZE_def thrown_message_def ann_def)
qed

section \<open>When the store is written\<close>

text \<open>
  Against C2 as stated: 150 recipients; after the first of the two chunks the loop holds
  its 100 outcomes, and the stored batch still has no results.
\<close>

theorem store_between_chunks_counterexample:
  "fst (snd (chunk_step (task_for 150) (0, [], accepted)))
     = replicate 100 (delivered ''ann@example.org'')
   \<and> batchResults (snd (snd (chunk_step (task_for 150) (0, [], accepted)))) ''batch_17_abc''
     = Some \<lparr>results = [], status = Processing, totalSent = 0, totalFailed = 0, createdAt = 18\<rparr>"
  by (simp add: first_step_150) (simp add: accepted_def new_batch_def)


text \<open>
  C2, amended. The loop does not write to the store: after any number \<open>k\<close> of chunks the
  store is what it was before the loop, while the outcomes of the first \<open>k\<close> chunks are
  in the local list \<open>allResults\<close>. The loop is the step repeated once per chunk, and the
  batch is written once, after the last chunk, with all outcomes in order, status
  \<open>completed\<close> and the two counts.
\<close>

theorem store_written_once:
  "batchResults (snd (snd ((chunk_step t ^^ k) (0, [], s)))) = batchResults s
   \<and> fst (snd ((chunk_step t ^^ k) (0, [], s)))
       = concat (map (results_at t (provider s) (length (sends (events s)))) [0..<k])
   \<and> chunk_loop t (0, [], s) = snd ((chunk_step t ^^ rounds (length (recipients t))) (0, [], s))
   \<and> (batchResults s (batchId t) = Some b \<longrightarrow>
        batchResults (processBatchAsync t s)
          = (batchResults s)(batchId t \<mapsto>
              \<lparr>results = fst (chunk_loop t (0, [], s)), status = Completed,
               totalSent = length (filter (\<lambda>r. r_status r = RSuccess) (fst (chunk_loop t (0, [], s)))),
               totalFailed = length (filter (\<lambda>r. r_status r = RFailed) (fst (chunk_loop t (0, [], s)))),
               createdAt = createdAt b\<rparr>))"
  using processBatchAsync_stored [of s t b]
  by (simp add: chunk_steps chunk_loop_eq)

theorem store_written_once_witness:
  "batchResults (snd (snd ((chunk_step (task_for 150) ^^ 1) (0, [], accepted)))) = batchResults accepted
   \<and> fst (snd ((chunk_step (task_for 150) ^^ 1) (0, [], accepted)))
       = replicate 100 (delivered ''ann@example.org'')
   \<and> batchResults (processBatchAsync (task_for 150) accepted) ''batch_17_abc''
       = Some \<lparr>results = replicate 100 (delivered ''ann@example.org'')
                   @ replicate 50 (failed_result ''ann@example.org'' ''provider down''),
               status = Completed, totalSent = 100, totalFailed = 50, createdAt = 18\<rparr>"
proof -
  note w = store_written_once [where t = "task_for 150" and k = 1 and s = accepted
      and b = "new_batch 18"]
  have stored: "batchResults accepted (batchId (task_for 150)) = Some (new_batch 18)"
    by (simp add: accepted_def task_for_def)
  have p: "provider accepted = stub" "length (sends (events accepted)) = 0"
    by (simp_all add: accepted_def fresh_def)
  have bid: "batchId (task_for 150) = ''batch_17_abc''" by (simp add: task_for_def)
  have sent: "length (filter (\<lambda>r. r_status r = RSuccess)
                 (replicate 100 (delivered ''ann@example.org'')
                  @ replicate 50 (failed_result ''ann@example.org'' ''provider down''))) = 100"
    by (simp add: delivered_def failed_result_def)
  have failed: "length (filter (\<lambda>r. r_status r = RFailed)
                 (replicate 100 (delivered ''ann@example.org'')
                  @ replicate 50 (failed_result ''ann@example.org'' ''provider down''))) = 50"
    by (simp add: delivered_def failed_result_def)
  from w [THEN conjunct1]
  have c1: "batchResults (snd (snd ((chunk_step (task_for 150) ^^ 1) (0, [], accepted))))
              = batchResults accepted" .
  from w [THEN conjunct2, THEN conjunct1]
  have c2: "fst (snd ((chunk_step (task_for 150) ^^ 1) (0, [], accepted)))
              = replicate 100 (delivered ''ann@example.org'')"
    by (simp add: p results_at_ok BATCH_SIZE_def)
  from w [THEN conjunct2, THEN conjunct2, THEN conjunct2] stored
  have "batchResults (processBatchAsync (task_for 150) accepted)
          = (batchResults accepted)(batchId (task_for 150) \<mapsto>
              \<lparr>results = fst (chunk_loop (task_for 150) (0, [], accepted)), status = Completed,
               totalSent = length (filter (\<lambda>r. r_status r = RSuccess)
                             (fst (chunk_loop (task_for 150) (0, [], accepted)))),
               totalFailed = length (filter (\<lambda>r. r_status r = RFailed)
                               (fst (chunk_loop (task_for 150) (0, [], accepted)))),
               createdAt = createdAt (new_batch 18)\<rparr>)"
    by blast
  then have c3: "batchResults (processBatchAsync (task_for 150) accepted) ''batch_17_abc''
       = Some \<lparr>results = replicate 100 (delivered ''ann@example.org'')
                   @ replicate 50 (failed_result ''ann@example.org'' ''provider down''),
               status = Completed, totalSent = 100, totalFailed = 50, createdAt = 18\<rparr>"
    by (simp only: loop_150 sent failed bid) (simp add: new_batch_def)
  from c1 c2 c3 show ?thesis by blast
qed

section \<open>Validation of a submission\<close>

lemma handler_rejects:
  assumes bad: "\<not> valid_submission body env"
  shows "\<exists>msg. handler ''POST'' body env now random created s = (reply 400 False msg None, s, None)"
proof (cases "body_recipients body")
  case None
  then show ?thesis by (auto simp: handler_def)
next
  case (Some rs)
  show ?thesis
  proof (cases "length rs = 0 \<or> \<not> truthy (body_subject body) \<or> \<not> truthy (body_htmlContent body)
        \<or> \<not> truthy (if truthy (FROM_EMAIL env) then FROM_EMAIL env else NEXT_PUBLIC_FROM_EMAIL env)")
    case True
    with Some show ?thesis by (auto simp: handler_def Let_def)
  next
    case False
    then obtain subj content addr where v: "body_subject body = Some subj" "subj \<noteq> []"
       "body_htmlContent body = Some content" "content \<noteq> []"
       "(if truthy (FROM_EMAIL env) then FROM_EMAIL env else NEXT_PUBLIC_FROM_EMAIL env) = Some addr"
       "addr \<noteq> []"
      and ne: "rs \<noteq> []"
      by (auto simp: truthy_def split: option.splits)
    from False have sender: "truthy (FROM_EMAIL env) \<or> truthy (NEXT_PUBLIC_FROM_EMAIL env)"
      by (auto split: if_splits)
    with bad Some False have "length rs > 1000"
      by (auto simp: valid_submission_def)
    with Some v ne show ?thesis
      by (auto simp: handler_def Let_def truthy_def)
  qed
qed

lemma handler_accepts_valid:
  assumes ok: "valid_submission body env"
  shows "\<exists>msg t. (\<forall>s. handler ''POST'' body env now random created s
           = (reply 200 True msg (Some (new_id now random)),
              (create_batch (new_id now random) created s)
                \<lparr>events := events s @ [Sent (payloads_at t 0)]\<rparr>,
              Some t))
         \<and> batchId t = new_id now random \<and> body_recipients body = Some (recipients t)
         \<and> 0 < length (recipients t)"
proof -
  from ok obtain rs where rs: "body_recipients body = Some rs" "0 < length rs" "length rs \<le> 1000"
    by (auto simp: valid_submission_def split: option.splits)
  from ok obtain subj content where v: "body_subject body = Some subj" "subj \<noteq> []"
       "body_htmlContent body = Some content" "content \<noteq> []"
    by (auto simp: valid_submission_def truthy_def split: option.splits)
  let ?sender = "if truthy (FROM_EMAIL env) then FROM_EMAIL env else NEXT_PUBLIC_FROM_EMAIL env"
  from ok have "truthy ?sender"
    by (auto simp: valid_submission_def)
  then obtain addr where a: "?sender = Some addr" "addr \<noteq> []"
    by (cases ?sender) (simp_all add: truthy_def)
  let ?t = "\<lparr>batchId = new_id now random, recipients = rs, subject = subj,
             htmlContent = content, textContent = body_textContent body,
             fromEmail = (if CHR ''@'' \<in> set addr then addr else ''noreply@'' @ addr),
             fromName = body_fromName body\<rparr>"
  let ?msg = "''Email batch initiated with '' @ dec (length rs) @ '' recipients''"
  have "handler ''POST'' body env now random created s
           = (reply 200 True ?msg (Some (new_id now random)),
              (create_batch (new_id now random) created s)
                \<lparr>events := events s @ [Sent (payloads_at ?t 0)]\<rparr>,
              Some ?t)" for s
    using rs v a by (simp add: handler_def Let_def truthy_def new_id_def begin_stored)
  moreover from rs have "batchId ?t = new_id now random \<and> body_recipients body = Some (recipients ?t)
      \<and> 0 < length (recipients ?t)"
    by simp
  ultimately show ?thesis by blast
qed

text \<open>
  The background run as a whole, from the state with the batch stored, begins with the
  provider call that is already issued when the response is sent.
\<close>

lemma run_extends_begin:
  assumes some: "0 < length (recipients t)"
  shows "\<exists>rest. events (processBatchAsync t (create_batch (batchId t) created s))
           = (events s @ [Sent (payloads_at t 0)]) @ rest"
proof -
  let ?s1 = "create_batch (batchId t) created s"
  let ?k = "rounds (length (recipients t))"
  from some have "0 < ?k"
    unfolding rounds_def BATCH_SIZE_def by arith
  then have upt: "[0..<?k] = 0 # [1..<?k]"
    by (simp add: upt_conv_Cons)
  have stored: "batchResults ?s1 (batchId t) = Some (new_batch created)"
    by (simp add: create_batch_def new_batch_def)
  have "events (processBatchAsync t ?s1)
          = events ?s1 @ concat (map (events_at t) [0..<?k])"
    by (simp add: processBatchAsync_def stored chunk_loop_eq)
  also have "events ?s1 = events s"
    by (simp add: create_batch_def)
  also have "concat (map (events_at t) [0..<?k])
          = events_at t 0 @ concat (map (events_at t) [1..<?k])"
    by (simp only: upt list.map concat.simps)
  also have "events_at t 0
          = [Sent (payloads_at t 0)]
              @ (if BATCH_SIZE < length (recipients t) then [Slept 1000] else [])"
    by (simp add: events_at_def)
  finally show ?thesis by simp
qed

text \<open>
  C3. A POST whose submission has no or an empty recipient list, more than 1000
  recipients, a missing or empty subject, a missing or empty HTML content, or no sender
  address in the environment is answered with status 400, \<open>success\<close> false and no batch
  id; the state is as before, so no batch is stored and no provider call is made, and no
  background run is started. A POST whose submission meets all these preconditions is
  answered with status 200, \<open>success\<close> true and the new batch id. When that response is
  sent, the store holds, under that id, a batch with status \<open>processing\<close>, no results and
  both counters 0, and the background run has been started on the submitted recipients:
  the provider call for its first chunk is issued and nothing else has happened. No
  answer of the provider is waited for: the response, the started run and the state are
  the same whatever the provider answers. The run as a whole continues from that call.
\<close>

theorem submit_validation:
  "(\<not> valid_submission body env \<longrightarrow>
      (\<exists>r. handler ''POST'' body env now random created s = (r, s, None)
         \<and> res_code r = 400 \<and> \<not> res_success r \<and> res_batchId r = None))
   \<and> (valid_submission body2 env2 \<longrightarrow>
      (\<exists>r s' t. handler ''POST'' body2 env2 now random created s = (r, s', Some t)
         \<and> res_code r = 200 \<and> res_success r \<and> res_batchId r = Some (new_id now random)
         \<and> batchId t = new_id now random \<and> body_recipients body2 = Some (recipients t)
         \<and> batchResults s' = (batchResults s)(new_id now random \<mapsto> new_batch created)
         \<and> provider s' = provider s
         \<and> events s' = events s @ [Sent (payloads_at t 0)]
         \<and> (\<forall>p. handler ''POST'' body2 env2 now random created (s\<lparr>provider := p\<rparr>)
                  = (r, s'\<lparr>provider := p\<rparr>, Some t))
         \<and> (\<exists>rest. events (processBatchAsync t (create_batch (batchId t) created s))
                  = events s' @ rest)))"
proof (intro conjI impI)
  assume "\<not> valid_submission body env"
  from handler_rejects [OF this, of now random created s]
  obtain msg where "handler ''POST'' body env now random created s = (reply 400 False msg None, s, None)"
    by blast
  then show "\<exists>r. handler ''POST'' body env now random created s = (r, s, None)
         \<and> res_code r = 400 \<and> \<not> res_success r \<and> res_batchId r = None"
    by (simp add: reply_def)
next
  assume "valid_submission body2 env2"
  from handler_accepts_valid [OF this, of now random created]
  obtain msg t where h: "\<And>s. handler ''POST'' body2 env2 now random created s
           = (reply 200 True msg (Some (new_id now random)),
              (create_batch (new_id now random) created s)
                \<lparr>events := events s @ [Sent (payloads_at t 0)]\<rparr>,
              Some t)"
    and t: "batchId t = new_id now random" "body_recipients body2 = Some (recipients t)"
      "0 < length (recipients t)"
    by blast
  let ?r = "reply 200 True msg (Some (new_id now random))"
  let ?s' = "(create_batch (new_id now random) created s)
                \<lparr>events := events s @ [Sent (payloads_at t 0)]\<rparr>"
  have 1: "handler ''POST'' body2 env2 now random created s = (?r, ?s', Some t)"
    by (rule h)
  have 2: "res_code ?r = 200 \<and> res_success ?r \<and> res_batchId ?r = Some (new_id now random)"
    by (simp add: reply_def)
  have 3: "batchResults ?s' = (batchResults s)(new_id now random \<mapsto> new_batch created)
      \<and> provider ?s' = provider s \<and> events ?s' = events s @ [Sent (payloads_at t 0)]"
    by (simp add: create_batch_def new_batch_def)
  have 4: "handler ''POST'' body2 env2 now random created (s\<lparr>provider := p\<rparr>)
                  = (?r, ?s'\<lparr>provider := p\<rparr>, Some t)" for p
    by (simp add: h create_batch_def)
  from run_extends_begin [OF t(3), of created s]
  have 5: "\<exists>rest. events (processBatchAsync t (create_batch (batchId t) created s))
                  = events ?s' @ rest"
    by (simp add: create_batch_def)
  from 1 2 3 4 5 t
  show "\<exists>r s' t. handler ''POST'' body2 env2 now random created s = (r, s', Some t)
         \<and> res_code r = 200 \<and> res_success r \<and> res_batchId r = Some (new_id now random)
         \<and> batchId t = new_id now random \<and> body_recipients body2 = Some (recipients t)
         \<and> batchResults s' = (batchResults s)(new_id now random \<mapsto> new_batch created)
         \<and> provider s' = provider s
         \<and> events s' = events s @ [Sent (payloads_at t 0)]
         \<and> (\<forall>p. handler ''POST'' body2 env2 now random created (s\<lparr>provider := p\<rparr>)
                  = (r, s'\<lparr>provider := p\<rparr>, Some t))
         \<and> (\<exists>rest. events (processBatchAsync t (create_batch (batchId t) created s))
                  = events s' @ rest)"
    by blast
qed

theorem submit_validation_witness:
  "\<not> valid_submission (request_for 0) env0
   \<and> valid_submission (request_for 150) env0
   \<and> (\<exists>r. handler ''POST'' (request_for 0) env0 17 ''abc'' 18 fresh = (r, fresh, None)
         \<and> res_code r = 400 \<and> \<not> res_success r \<and> res_batchId r = None)
   \<and> (\<exists>r s' t. handler ''POST'' (request_for 150) env0 17 ''abc'' 18 fresh = (r, s', Some t)
         \<and> res_code r = 200 \<and> res_success r \<and> res_batchId r = Some (new_id 17 ''abc'')
         \<and> batchId t = new_id 17 ''abc''
         \<and> body_recipients (request_for 150) = Some (recipients t)
         \<and> batchResults s' = (batchResults fresh)(new_id 17 ''abc'' \<mapsto> new_batch 18)
         \<and> provider s' = provider fresh
         \<and> events s' = events fresh @ [Sent (payloads_at t 0)]
         \<and> (\<forall>p. handler ''POST'' (request_for 150) env0 17 ''abc'' 18 (fresh\<lparr>provider := p\<rparr>)
                  = (r, s'\<lparr>provider := p\<rparr>, Some t))
         \<and> (\<exists>rest. events (processBatchAsync t (create_batch (batchId t) 18 fresh))
                  = events s' @ rest))"
proof -
  have bad: "\<not> valid_submission (request_for 0) env0"
    by (simp add: valid_submission_def request_for_def)
  have ok: "valid_submission (request_for 150) env0"
    by (simp add: valid_submission_def request_for_def env0_def truthy_def)
  note both = submit_validation [of "request_for 0" env0 17 "''abc''" 18 fresh "request_for 150" env0]
  from both [THEN conjunct1, THEN mp, OF bad] both [THEN conjunct2, THEN mp, OF ok] bad ok
  show ?thesis by (intro conjI)
qed

section \<open>The status report\<close>

lemma all_completed:
  "length (filter (\<lambda>r. r_status r = RSuccess \<or> r_status r = RFailed) xs) = length xs"
proof -
  have "filter (\<lambda>r. r_status r = RSuccess \<or> r_status r = RFailed) xs = xs"
  proof (rule filter_True)
    show "\<forall>x\<in>set xs. r_status x = RSuccess \<or> r_status x = RFailed"
    proof
      fix x assume "x \<in> set xs"
      show "r_status x = RSuccess \<or> r_status x = RFailed" by (cases "r_status x") simp_all
    qed
  qed
  then show ?thesis by simp
qed

text \<open>
  Against C9 as stated: the empty id has no stored batch, and a GET for it is answered
  with status 400, \<open>Batch ID is required\<close>, not with the not-found reply.
\<close>

theorem status_empty_id_counterexample:
  "batchResults fresh [] = None
   \<and> status_handler ''GET'' (QString []) fresh = status_error 400 ''Batch ID is required''"
  by (simp add: status_handler_def fresh_def)

text \<open>
  C9, amended. In a reachable state, a GET for the id of a stored batch is answered with
  status 200 and the batch's status, results and two counters, and with a progress equal
  to \<open>round(100 * (totalSent + totalFailed) / results.length)\<close>, or 0 when there are no
  results; a GET for an id that is not empty and not in the store is answered with the
  not-found reply, status 404; a GET with an empty or missing id is answered with status
  400.
\<close>

theorem status_report:
  assumes "reachable s"
  shows "(batchResults s bid = Some b \<longrightarrow>
            st_code (status_handler ''GET'' (QString bid) s) = 200
          \<and> st_status (status_handler ''GET'' (QString bid) s) = Some (status b)
          \<and> st_results (status_handler ''GET'' (QString bid) s) = Some (results b)
          \<and> st_totalSent (status_handler ''GET'' (QString bid) s) = Some (totalSent b)
          \<and> st_totalFailed (status_handler ''GET'' (QString bid) s) = Some (totalFailed b)
          \<and> st_progress (status_handler ''GET'' (QString bid) s)
              = Some (if length (results b) = 0 then 0
                      else round (100 * real (totalSent b + totalFailed b)
                                    / real (length (results b)))))
       \<and> (bid2 \<noteq> [] \<and> batchResults s bid2 = None \<longrightarrow>
            status_handler ''GET'' (QString bid2) s
              = status_error 404 ''Batch not found or expired'')
       \<and> status_handler ''GET'' (QString []) s = status_error 400 ''Batch ID is required''
       \<and> status_handler ''GET'' QMissing s = status_error 400 ''Batch ID is required''"
proof (intro conjI impI)
  show "status_handler ''GET'' (QString []) s = status_error 400 ''Batch ID is required''"
    by (simp add: status_handler_def)
next
  show "status_handler ''GET'' QMissing s = status_error 400 ''Batch ID is required''"
    by (simp add: status_handler_def)
next
  assume "bid2 \<noteq> [] \<and> batchResults s bid2 = None"
  then show "status_handler ''GET'' (QString bid2) s = status_error 404 ''Batch not found or expired''"
    by (simp add: status_handler_def getBatchResults_def)
next
  assume stored: "batchResults s bid = Some b"
  from reachable_ids [OF assms stored] have ne: "bid \<noteq> []" .
  from reachable_counted [OF assms stored]
  have sum: "totalSent b + totalFailed b = length (results b)" by (simp add: counted_def)
  let ?r = "status_handler ''GET'' (QString bid) s"
  from stored ne show "st_code ?r = 200"
    by (simp add: status_handler_def getBatchResults_def Let_def)
  from stored ne show "st_status ?r = Some (status b)"
    by (simp add: status_handler_def getBatchResults_def Let_def)
  from stored ne show "st_results ?r = Some (results b)"
    by (simp add: status_handler_def getBatchResults_def Let_def)
  from stored ne show "st_totalSent ?r = Some (totalSent b)"
    by (simp add: status_handler_def getBatchResults_def Let_def)
  from stored ne show "st_totalFailed ?r = Some (totalFailed b)"
    by (simp add: status_handler_def getBatchResults_def Let_def)
  from stored ne sum show "st_progress ?r
              = Some (if length (results b) = 0 then 0
                      else round (100 * real (totalSent b + totalFailed b)
                                    / real (length (results b))))"
    by (simp add: status_handler_def getBatchResults_def Let_def all_completed)
qed

theorem status_report_witness:
  "st_code (status_handler ''GET'' (QString ''batch_17_abc'') (processBatchAsync (task_for 150) accepted)) = 200
   \<and> st_status (status_handler ''GET'' (QString ''batch_17_abc'') (processBatchAsync (task_for 150) accepted)) = Some Completed
   \<and> st_totalSent (status_handler ''GET'' (QString ''batch_17_abc'') (processBatchAsync (task_for 150) accepted)) = Some 100
   \<and> st_totalFailed (status_handler ''GET'' (QString ''batch_17_abc'') (processBatchAsync (task_for 150) accepted)) = Some 50
   \<and> st_progress (status_handler ''GET'' (QString ''batch_17_abc'') (processBatchAsync (task_for 150) accepted)) = Some 100
   \<and> status_handler ''GET'' (QString ''nope'') (processBatchAsync (task_for 150) accepted)
        = status_error 404 ''Batch not found or expired''"
proof -
  let ?s = "processBatchAsync (task_for 150) accepted"
  let ?b = "\<lparr>results = replicate 100 (delivered ''ann@example.org'')
                 @ replicate 50 (failed_result ''ann@example.org'' ''provider down''),
              status = Completed, totalSent = 100, totalFailed = 50, createdAt = 18\<rparr>"
  have r: "reachable ?s"
    using reachable_accepted by (rule reachable.processed)
  have stored: "batchResults accepted (batchId (task_for 150)) = Some (new_batch 18)"
    by (simp add: accepted_def task_for_def)
  have none: "batchResults ?s ''nope'' = None"
    by (simp add: processBatchAsync_stored [OF stored]) (simp add: task_for_def accepted_def fresh_def)
  from status_report [OF r, of "''batch_17_abc''" ?b "''nope''"] finished_150 none
  show ?thesis by simp
qed

section \<open>Names that are not in the record\<close>

text \<open>
  C7. The claim holds that a token whose name has no value in the record and that has
  no fallback is left unchanged, and that a fallback is everything after the first bar.
  The code, evaluated: for the name \<open>constructor\<close>, which is not a property of the record
  \<open>{email: "x@example.org"}\<close>, the lookup \<open>data[varName]\<close> finds the member that every
  object inherits and the token is replaced by the text of that function; in
  \<open>{{name|a|b}}\<close> the fallback is cut at its first bar; and the fallback that the
  application's own quick templates write with two bars, \<open>{{company || "Our Team"}}\<close>, is
  not applied at all.
\<close>

theorem replaceVariables_inherited_name:
  "others nobody ''constructor'' = None
   \<and> replaceVariables ''Hi {{constructor}}'' nobody
        = ''Hi function Object() { [native code] }''
   \<and> replaceVariables ''Hi {{name|a|b}}'' nobody = ''Hi a''
   \<and> replaceVariables ''{{company || \"Our Team\"}}'' nobody
        = ''{{company || \"Our Team\"}}''"
  by (simp add: replaceVariables_def match_token_def not_close_def replacer_def trim_def
        is_space_def get_prop_def inherited_def native_methods_def nobody_def
        strip_quotes_def is_quote_def)

text \<open>The three examples of the specification, evaluated.\<close>

lemma replaceVariables_examples:
  "replaceVariables ''Hi {{name}}'' ann = ''Hi Ann''
   \<and> replaceVariables ''Hi {{name|\"Friend\"}}'' nobody = ''Hi Friend''
   \<and> replaceVariables ''Hi {{name}}'' nobody = ''Hi {{name}}''"
  by (simp add: replaceVariables_def match_token_def not_close_def replacer_def trim_def
        is_space_def get_prop_def inherited_def native_methods_def ann_def nobody_def
        strip_quotes_def is_quote_def)

section \<open>Tokens and plain text\<close>





section \<open>Rendering twice\<close>














end
